theory Spec2Isabelle
  imports Complex_Main "HOL-Library.Multiset"
begin

section \<open>JavaScript values\<close>

text \<open>
  A number is an IEEE double: \<open>NaN\<close>, an infinity, or \<open>Finite r\<close> with the rational
  value \<open>r\<close> of the double. Every literal and every result of an arithmetic operation is
  rounded to the nearest double (\<open>toDouble\<close> below). \<open>-0\<close> is identified with \<open>0\<close>.
\<close>

datatype jsnum = NaN | Finite rat | PosInfinity | NegInfinity

text \<open>
  The values the query-string parser of the HTTP layer puts into \<open>req.query\<close>: a string,
  an array (a repeated key) or a nested object (\<open>a[b]=c\<close>).
\<close>

datatype qval = QStr string | QArr "qval list" | QObj "(string \<times> qval) list"

text \<open>Values of documents, request bodies and storage predicates.\<close>

datatype jsval =
    VNull
  | VBool bool
  | VNum jsnum
  | VStr string
  | VObjectId string
  | VArr "jsval list"
  | VObj "(string \<times> jsval) list"

fun embed :: "qval \<Rightarrow> jsval" where
  "embed (QStr s) = VStr s"
| "embed (QArr xs) = VArr (map embed xs)"
| "embed (QObj kvs) = VObj (map (\<lambda>(k, v). (k, embed v)) kvs)"

text \<open>An error object as the handlers inspect it: \<open>name\<close>, \<open>kind\<close>, \<open>code\<close>, the keys of
  \<open>keyPattern\<close>, and the \<open>path\<close> and \<open>message\<close> of each entry of \<open>errors\<close>.\<close>

record error =
  name :: string
  message :: string
  kind :: "string option"
  code :: "int option"
  keyPattern :: "string list option"
  errors :: "(string \<times> string) list option"

definition typeError :: "string \<Rightarrow> error" where
  "typeError msg = \<lparr>name = ''TypeError'', message = msg, kind = None, code = None,
                     keyPattern = None, errors = None\<rparr>"

subsection \<open>Strings\<close>

text \<open>
  A string is the list of its code units, and the model holds the code units up to
  \<open>0xFF\<close>, which stand for the characters \<open>U+0000\<close> to \<open>U+00FF\<close>. The white space
  and the line terminators of ECMAScript in this range are the tab, the line feed, the
  vertical tab, the form feed, the carriage return, the space and the no-break space.
\<close>

definition isWhiteSpace :: "char \<Rightarrow> bool" where
  "isWhiteSpace c =
     (c \<in> set [CHR 0x09, CHR 0x0A, CHR 0x0B, CHR 0x0C, CHR 0x0D, CHR 0x20, CHR 0xA0])"

definition isLineTerminator :: "char \<Rightarrow> bool" where
  "isLineTerminator c = (c = CHR 0x0A \<or> c = CHR 0x0D)"

definition trimStart :: "string \<Rightarrow> string" where
  "trimStart s = dropWhile isWhiteSpace s"

definition trimEnd :: "string \<Rightarrow> string" where
  "trimEnd s = rev (dropWhile isWhiteSpace (rev s))"

definition trim :: "string \<Rightarrow> string" where
  "trim s = trimEnd (trimStart s)"

definition startsWith :: "string \<Rightarrow> string \<Rightarrow> bool" where
  "startsWith s p = (take (length p) s = p)"

definition endsWith :: "string \<Rightarrow> string \<Rightarrow> bool" where
  "endsWith s p = (length p \<le> length s \<and> drop (length s - length p) s = p)"

text \<open>\<open>s.slice(1, -1)\<close>\<close>

definition slice1 :: "string \<Rightarrow> string" where
  "slice1 s = drop 1 (take (length s - 1) s)"

fun join :: "string \<Rightarrow> string list \<Rightarrow> string" where
  "join sep [] = []"
| "join sep [x] = x"
| "join sep (x # y # ys) = x @ sep @ join sep (y # ys)"

text \<open>\<open>String(value)\<close> on a value of the query string: an array joins its elements with
  commas, an object prints as \<open>[object Object]\<close>.\<close>

fun toStr :: "qval \<Rightarrow> string" where
  "toStr (QStr s) = s"
| "toStr (QArr xs) = join '','' (map toStr xs)"
| "toStr (QObj kvs) = ''[object Object]''"

subsection \<open>Rounding to a double\<close>

text \<open>The nearest integer, the even one of the two on a tie.\<close>

definition roundHalfEven :: "rat \<Rightarrow> int" where
  "roundHalfEven x =
     (let f = \<lfloor>x\<rfloor>; d = x - of_int f
      in if d < 1 / 2 then f else if 1 / 2 < d then f + 1 else if even f then f else f + 1)"

text \<open>The number of binary digits of a positive integer.\<close>

function bitLength :: "int \<Rightarrow> int" where
  "bitLength n = (if n \<le> 0 then 0 else 1 + bitLength (n div 2))"
  by pat_completeness auto
termination
  by (relation "measure nat") auto

declare bitLength.simps [simp del]

definition pow2 :: "int \<Rightarrow> rat" where
  "pow2 e = (if 0 \<le> e then 2 ^ nat e else 1 / 2 ^ nat (- e))"

text \<open>The binary exponent of a positive rational \<open>a\<close>: the \<open>e\<close> with
  \<open>2^e \<le> a < 2^(e+1)\<close>.\<close>

definition exponentOf :: "rat \<Rightarrow> int" where
  "exponentOf a =
     (let e0 = bitLength (fst (quotient_of a)) - bitLength (snd (quotient_of a))
      in if pow2 e0 \<le> a then e0 else e0 - 1)"

text \<open>
  The double nearest to a rational, ties to the even significand. A double has a
  significand of 53 bits; the exponent of a normal double is at least \<open>-1022\<close>, so the
  doubles next to \<open>a\<close> are the multiples of \<open>2^q\<close> with \<open>q\<close> the exponent of \<open>a\<close>, or
  \<open>-1022\<close> if that is larger, less 52. A rounded value of \<open>2^1024\<close> or more, that is a
  significand of \<open>2^53\<close> at \<open>q = 971\<close>, is an infinity.
\<close>

definition toDouble :: "rat \<Rightarrow> jsnum" where
  "toDouble r =
     (if r = 0 then Finite 0
      else
        (let a = \<bar>r\<bar>;
             q = max (exponentOf a) (- 1022) - 52;
             m = roundHalfEven (a / pow2 q)
         in if 971 \<le> q \<and> 2 ^ 53 \<le> m * 2 ^ nat (q - 971)
            then (if r < 0 then NegInfinity else PosInfinity)
            else Finite (if r < 0 then - (of_int m * pow2 q) else of_int m * pow2 q)))"

text \<open>The rationals that are the value of a double.\<close>

definition isDouble :: "rat \<Rightarrow> bool" where
  "isDouble r = (toDouble r = Finite r)"

subsection \<open>Numeric literals\<close>

definition digitOf :: "nat \<Rightarrow> char \<Rightarrow> nat option" where
  "digitOf radix c =
     (let n = (of_char c :: nat);
          v = (if 48 \<le> n \<and> n \<le> 57 then Some (n - 48)
               else if 97 \<le> n \<and> n \<le> 122 then Some (n - 87)
               else if 65 \<le> n \<and> n \<le> 90 then Some (n - 55)
               else None)
      in case v of None \<Rightarrow> None | Some d \<Rightarrow> if d < radix then Some d else None)"

definition isDigitOf :: "nat \<Rightarrow> char \<Rightarrow> bool" where
  "isDigitOf radix c = (digitOf radix c \<noteq> None)"

definition digitsValue :: "nat \<Rightarrow> string \<Rightarrow> int" where
  "digitsValue radix ds =
     foldl (\<lambda>acc c. int radix * acc + (case digitOf radix c of Some d \<Rightarrow> int d | None \<Rightarrow> 0)) 0 ds"

definition hasPrefixCI :: "string \<Rightarrow> char \<Rightarrow> char \<Rightarrow> bool" where
  "hasPrefixCI s lo up = (case s of a # b # _ \<Rightarrow> a = CHR ''0'' \<and> (b = lo \<or> b = up) | _ \<Rightarrow> False)"

text \<open>\<open>parseInt(string)\<close> with no radix argument: leading white space is skipped, a sign
  and a hexadecimal prefix are read, then the longest run of digits; the result is the
  double nearest to the integer they write.\<close>

definition parseInt :: "string \<Rightarrow> jsnum" where
  "parseInt inputString =
     (let s = trimStart inputString;
          neg = (case s of c # _ \<Rightarrow> c = CHR ''-'' | [] \<Rightarrow> False);
          s1 = (case s of c # t \<Rightarrow> if c = CHR ''-'' \<or> c = CHR ''+'' then t else s | [] \<Rightarrow> s);
          hex = hasPrefixCI s1 CHR ''x'' CHR ''X'';
          radix = (if hex then 16 else 10);
          s2 = (if hex then drop 2 s1 else s1);
          z = takeWhile (isDigitOf radix) s2
      in if z = [] then NaN
         else toDouble (if neg then - of_int (digitsValue radix z) else of_int (digitsValue radix z)))"

text \<open>The exponent part of a decimal literal: empty, or \<open>e\<close>/\<open>E\<close>, an optional sign and
  at least one digit, up to the end of the string.\<close>

definition exponentPart :: "string \<Rightarrow> int option" where
  "exponentPart s =
     (case s of
        [] \<Rightarrow> Some 0
      | c # t \<Rightarrow>
          if c = CHR ''e'' \<or> c = CHR ''E'' then
            (let neg = (case t of d # _ \<Rightarrow> d = CHR ''-'' | [] \<Rightarrow> False);
                 ds = (case t of d # u \<Rightarrow> if d = CHR ''-'' \<or> d = CHR ''+'' then u else t | [] \<Rightarrow> t)
             in if ds \<noteq> [] \<and> list_all (isDigitOf 10) ds
                then Some (if neg then - digitsValue 10 ds else digitsValue 10 ds)
                else None)
          else None)"

definition scale10 :: "rat \<Rightarrow> int \<Rightarrow> rat" where
  "scale10 m e = (if 0 \<le> e then m * 10 ^ nat e else m / 10 ^ nat (- e))"

text \<open>\<open>StrUnsignedDecimalLiteral\<close>: \<open>Infinity\<close>, or digits with an optional fraction and
  an optional exponent, at least one digit before or after the point; the result is the
  double nearest to the decimal value.\<close>

definition unsignedDecimal :: "string \<Rightarrow> jsnum" where
  "unsignedDecimal s =
     (if s = ''Infinity'' then PosInfinity
      else
        (let ip = takeWhile (isDigitOf 10) s;
             r1 = dropWhile (isDigitOf 10) s;
             dot = (case r1 of c # _ \<Rightarrow> c = CHR ''.'' | [] \<Rightarrow> False);
             fp = (if dot then takeWhile (isDigitOf 10) (tl r1) else []);
             r2 = (if dot then dropWhile (isDigitOf 10) (tl r1) else r1)
         in if ip = [] \<and> fp = [] then NaN
            else (case exponentPart r2 of
                    None \<Rightarrow> NaN
                  | Some e \<Rightarrow>
                      toDouble (scale10 (of_int (digitsValue 10 (ip @ fp))) (e - int (length fp))))))"

definition negate :: "jsnum \<Rightarrow> jsnum" where
  "negate n = (case n of NaN \<Rightarrow> NaN | Finite r \<Rightarrow> Finite (- r)
                 | PosInfinity \<Rightarrow> NegInfinity | NegInfinity \<Rightarrow> PosInfinity)"

definition nonDecimal :: "nat \<Rightarrow> string \<Rightarrow> jsnum" where
  "nonDecimal radix ds =
     (if ds \<noteq> [] \<and> list_all (isDigitOf radix) ds then toDouble (of_int (digitsValue radix ds))
      else NaN)"

text \<open>\<open>Number(string)\<close>: white space is trimmed, the empty string is \<open>0\<close>, then a signed
  decimal literal or an unsigned hexadecimal, octal or binary integer literal; anything else
  is \<open>NaN\<close>.\<close>

definition Number :: "string \<Rightarrow> jsnum" where
  "Number str =
     (let s = trim str in
      if s = [] then Finite 0
      else if hasPrefixCI s CHR ''x'' CHR ''X'' then nonDecimal 16 (drop 2 s)
      else if hasPrefixCI s CHR ''o'' CHR ''O'' then nonDecimal 8 (drop 2 s)
      else if hasPrefixCI s CHR ''b'' CHR ''B'' then nonDecimal 2 (drop 2 s)
      else (case s of
              c # t \<Rightarrow>
                if c = CHR ''-'' then negate (unsignedDecimal t)
                else if c = CHR ''+'' then unsignedDecimal t
                else unsignedDecimal s
            | [] \<Rightarrow> Finite 0))"

definition isNaN :: "jsnum \<Rightarrow> bool" where
  "isNaN n = (n = NaN)"

section \<open>The filter loop of the list handler\<close>

text \<open>
  The repository holds two routers: \<open>createRouter.js\<close> (CommonJS, sloppy mode) and
  \<open>createRouter.ts\<close> (an ES module, hence strict mode).
\<close>

datatype variant = JS | TS

definition isFilterable_js :: "string list \<Rightarrow> string \<Rightarrow> bool" where
  "isFilterable_js filterBy field = (if length filterBy = 0 then True else field \<in> set filterBy)"

definition isFilterable_ts :: "string list \<Rightarrow> string \<Rightarrow> bool" where
  "isFilterable_ts filterBy field = (if length filterBy = 0 then False else field \<in> set filterBy)"

definition isFilterable :: "variant \<Rightarrow> string list \<Rightarrow> string \<Rightarrow> bool" where
  "isFilterable v filterBy field =
     (case v of JS \<Rightarrow> isFilterable_js filterBy field | TS \<Rightarrow> isFilterable_ts filterBy field)"

text \<open>
  \<open>key.match(/^(.+)_(gt|gte|lt|lte|ne)$/)\<close>: the key ends with an underscore and one of the
  five operator names, and what stands before is not empty and holds no line terminator
  (the dot of a regular expression does not match one). The result is the pair of the two
  groups.
\<close>

definition operatorMatch :: "string \<Rightarrow> (string \<times> string) option" where
  "operatorMatch key =
     (case find (\<lambda>op. endsWith key (CHR ''_'' # op)
                       \<and> length key > Suc (length op)
                       \<and> \<not> list_ex isLineTerminator (take (length key - Suc (length op)) key))
             [''gt'', ''gte'', ''lt'', ''lte'', ''ne''] of
        None \<Rightarrow> None
      | Some op \<Rightarrow> Some (take (length key - Suc (length op)) key, op))"

text \<open>
  The predicate under construction is a plain object; it is modelled by the list of its
  own properties in insertion order. Writing a property replaces the value of a key that
  is present and appends a key that is not.
\<close>

type_synonym obj = "(string \<times> jsval) list"

fun setProp :: "string \<Rightarrow> 'a \<Rightarrow> (string \<times> 'a) list \<Rightarrow> (string \<times> 'a) list" where
  "setProp k v [] = [(k, v)]"
| "setProp k v ((k', v') # kvs) = (if k = k' then (k, v) # kvs else (k', v') # setProp k v kvs)"

definition getProp :: "obj \<Rightarrow> string \<Rightarrow> jsval option" where
  "getProp q k = map_of q k"

text \<open>The names of the own properties of an object.\<close>

definition keys :: "(string \<times> 'a) list \<Rightarrow> string set" where
  "keys q = fst ` set q"

text \<open>Truthiness of \<open>query[field]\<close>; an absent property reads as \<open>undefined\<close>.\<close>

definition truthy :: "jsval option \<Rightarrow> bool" where
  "truthy x =
     (case x of
        None \<Rightarrow> False
      | Some VNull \<Rightarrow> False
      | Some (VBool b) \<Rightarrow> b
      | Some (VNum n) \<Rightarrow> n \<noteq> NaN \<and> n \<noteq> Finite 0
      | Some (VStr s) \<Rightarrow> s \<noteq> []
      | Some _ \<Rightarrow> True)"

text \<open>
  The coerced value of a clause. The typed router converts the value to a string first and
  stores that string when it is not numeric; the other router tests the value itself, with
  the same outcome of the test since \<open>ToNumber\<close> of an array or object goes through its
  string, and stores the value as it came.
\<close>

definition coerce :: "variant \<Rightarrow> qval \<Rightarrow> jsval" where
  "coerce v val =
     (case v of
        TS \<Rightarrow> (let strValue = toStr val in
                if isNaN (Number strValue) then VStr strValue else VNum (Number strValue))
      | JS \<Rightarrow> (if isNaN (Number (toStr val)) then embed val else VNum (Number (toStr val))))"

text \<open>
  The predicate is created as \<open>{}\<close>, so a read of a name it does not own goes on to
  \<open>Object.prototype\<close>. These are the members of that prototype whose names can reach the
  loop; the others start with an underscore and are skipped as internal parameters.
\<close>

definition inheritedNames :: "string list" where
  "inheritedNames = [''constructor'', ''hasOwnProperty'', ''isPrototypeOf'',
                     ''propertyIsEnumerable'', ''toLocaleString'', ''toString'', ''valueOf'']"

text \<open>
  \<open>query[field][`$${operator}`] = w\<close>, after \<open>if (!query[field]) query[field] = {}\<close>.
  When the predicate does not own the field and the field names a member of the
  prototype, the read finds that member, a function: no node is created and the write
  lands on the function, so the predicate stays as it is. Otherwise, when the property
  holds an object the entry is written into it. When it holds a truthy primitive, strict
  mode throws a TypeError and sloppy mode ignores the write. An array takes the write as
  a named property, which is not one of its elements.
\<close>

definition setOperator :: "variant \<Rightarrow> obj \<Rightarrow> string \<Rightarrow> string \<Rightarrow> jsval \<Rightarrow> error + obj" where
  "setOperator v query field operator w =
     (if getProp query field = None \<and> field \<in> set inheritedNames then Inr query
      else
        (let query1 = (if \<not> truthy (getProp query field) then setProp field (VObj []) query
                       else query)
         in case getProp query1 field of
              Some (VObj node) \<Rightarrow>
                Inr (setProp field (VObj (setProp (CHR ''$'' # operator) w node)) query1)
            | Some (VArr xs) \<Rightarrow> Inr query1
            | _ \<Rightarrow> (case v of
                     TS \<Rightarrow> Inl (typeError ''Cannot create property on a primitive value'')
                   | JS \<Rightarrow> Inr query1)))"

definition isRegexLiteral :: "qval \<Rightarrow> bool" where
  "isRegexLiteral val =
     (case val of QStr s \<Rightarrow> startsWith s ''/'' \<and> endsWith s ''/'' | _ \<Rightarrow> False)"

text \<open>One iteration of \<open>for (const [key, value] of Object.entries(filters))\<close>.\<close>

definition filterStep :: "variant \<Rightarrow> string list \<Rightarrow> obj \<Rightarrow> string \<times> qval \<Rightarrow> error + obj" where
  "filterStep v filterBy query kv =
     (let key = fst kv; val = snd kv in
      if startsWith key ''_'' then Inr query
      else (case operatorMatch key of
              Some (field, operator) \<Rightarrow>
                if \<not> isFilterable v filterBy field then Inr query
                else setOperator v query field operator (coerce v val)
            | None \<Rightarrow>
                if \<not> isFilterable v filterBy key then Inr query
                else if isRegexLiteral val
                then Inr (setProp key (VObj [(''$regex'', VStr (slice1 (toStr val))),
                                              (''$options'', VStr ''i'')]) query)
                else Inr (setProp key (coerce v val) query)))"

fun buildQuery :: "variant \<Rightarrow> string list \<Rightarrow> obj \<Rightarrow> (string \<times> qval) list \<Rightarrow> error + obj" where
  "buildQuery v filterBy query [] = Inr query"
| "buildQuery v filterBy query (kv # kvs) =
     (case filterStep v filterBy query kv of
        Inl e \<Rightarrow> Inl e
      | Inr query' \<Rightarrow> buildQuery v filterBy query' kvs)"

text \<open>The field a key of the query string addresses: the first group of the operator
  pattern when the key matches it, the key itself otherwise.\<close>

definition fieldOf :: "string \<Rightarrow> string" where
  "fieldOf key = (case operatorMatch key of Some (field, operator) \<Rightarrow> field | None \<Rightarrow> key)"

section \<open>Arithmetic on numbers\<close>

fun jsLess :: "jsnum \<Rightarrow> jsnum \<Rightarrow> bool" where
  "jsLess NaN b = False"
| "jsLess a NaN = False"
| "jsLess (Finite a) (Finite b) = (a < b)"
| "jsLess (Finite a) PosInfinity = True"
| "jsLess (Finite a) NegInfinity = False"
| "jsLess PosInfinity b = False"
| "jsLess NegInfinity NegInfinity = False"
| "jsLess NegInfinity b = True"

text \<open>\<open>Math.max\<close> and \<open>Math.min\<close> of two arguments: \<open>NaN\<close> as soon as one argument is.\<close>

definition mathMax :: "jsnum \<Rightarrow> jsnum \<Rightarrow> jsnum" where
  "mathMax a b = (if a = NaN \<or> b = NaN then NaN else if jsLess a b then b else a)"

definition mathMin :: "jsnum \<Rightarrow> jsnum \<Rightarrow> jsnum" where
  "mathMin a b = (if a = NaN \<or> b = NaN then NaN else if jsLess b a then b else a)"

text \<open>Subtraction, multiplication and division: the exact result, rounded.\<close>

fun jsSub :: "jsnum \<Rightarrow> jsnum \<Rightarrow> jsnum" where
  "jsSub NaN b = NaN"
| "jsSub a NaN = NaN"
| "jsSub (Finite a) (Finite b) = toDouble (a - b)"
| "jsSub (Finite a) PosInfinity = NegInfinity"
| "jsSub (Finite a) NegInfinity = PosInfinity"
| "jsSub PosInfinity PosInfinity = NaN"
| "jsSub PosInfinity b = PosInfinity"
| "jsSub NegInfinity NegInfinity = NaN"
| "jsSub NegInfinity b = NegInfinity"

definition signOf :: "jsnum \<Rightarrow> int" where
  "signOf n = (case n of NaN \<Rightarrow> 0 | Finite r \<Rightarrow> sgn \<lfloor>sgn r\<rfloor> | PosInfinity \<Rightarrow> 1 | NegInfinity \<Rightarrow> - 1)"

definition jsMul :: "jsnum \<Rightarrow> jsnum \<Rightarrow> jsnum" where
  "jsMul a b =
     (case (a, b) of
        (Finite x, Finite y) \<Rightarrow> toDouble (x * y)
      | _ \<Rightarrow> if a = NaN \<or> b = NaN \<or> signOf a * signOf b = 0 then NaN
             else if signOf a * signOf b > 0 then PosInfinity else NegInfinity)"

definition jsDiv :: "jsnum \<Rightarrow> jsnum \<Rightarrow> jsnum" where
  "jsDiv a b =
     (case (a, b) of
        (Finite x, Finite y) \<Rightarrow>
          if y \<noteq> 0 then toDouble (x / y)
          else if x = 0 then NaN else if x > 0 then PosInfinity else NegInfinity
      | (Finite x, _) \<Rightarrow> if b = NaN then NaN else Finite 0
      | (_, Finite y) \<Rightarrow>
          if a = NaN then NaN
          else if signOf a * (if y < 0 then - 1 else 1) > 0 then PosInfinity else NegInfinity
      | _ \<Rightarrow> NaN)"

definition mathCeil :: "jsnum \<Rightarrow> jsnum" where
  "mathCeil a = (case a of Finite r \<Rightarrow> Finite (of_int \<lceil>r\<rceil>) | _ \<Rightarrow> a)"

section \<open>Requests, external calls and responses\<close>

record MulterFile =
  fieldname :: string
  originalname :: string
  encoding :: string
  mimetype :: string
  buffer :: "nat list"
  file_size :: nat

type_synonym uploads = "(string \<times> MulterFile list) list option"

record FileFieldConfig =
  fieldName :: string
  required :: "bool option"
  maxSize :: "rat option"
  accept :: "string option"

record RouterOptions =
  searchBy :: "string list"
  filterBy :: "string list"
  fileFields :: "FileFieldConfig list"
  blobToken :: "string option"

record request =
  query :: "(string \<times> qval) list"
  params_id :: string
  body :: "obj option"
  files :: uploads

text \<open>The calls a handler makes to the document store and to the blob store, in the
  order in which it makes them.\<close>

datatype call =
    Find obj string string jsnum jsnum
  | CountDocuments obj
  | Distinct string
  | FindById string
  | Create obj
  | FindByIdAndUpdate string obj bool
  | FindByIdAndDelete string
  | BlobPut string "nat list" string
  | BlobDel string string

text \<open>
  What the two stores, the clock, the identifier generator, the collation and the sort
  of the runtime answer. Each answer of a store may depend on the calls made before it.
  \<open>engineSort\<close> is \<open>Array.prototype.sort\<close> with a comparator.
\<close>

record world =
  dbFind :: "call list \<Rightarrow> obj \<Rightarrow> string \<Rightarrow> string \<Rightarrow> jsnum \<Rightarrow> jsnum \<Rightarrow> error + obj list"
  dbCountDocuments :: "call list \<Rightarrow> obj \<Rightarrow> error + nat"
  dbDistinct :: "call list \<Rightarrow> string \<Rightarrow> error + jsval list"
  dbFindById :: "call list \<Rightarrow> string \<Rightarrow> error + obj option"
  dbCreate :: "call list \<Rightarrow> obj \<Rightarrow> error + obj"
  dbFindByIdAndUpdate :: "call list \<Rightarrow> string \<Rightarrow> obj \<Rightarrow> bool \<Rightarrow> error + obj option"
  dbFindByIdAndDelete :: "call list \<Rightarrow> string \<Rightarrow> error + obj option"
  blobPut :: "call list \<Rightarrow> string \<Rightarrow> nat list \<Rightarrow> error + string"
  blobDel :: "call list \<Rightarrow> string \<Rightarrow> error + unit"
  dateNow :: "call list \<Rightarrow> nat"
  newObjectId :: "call list \<Rightarrow> string"
  localeCompare :: "string \<Rightarrow> string \<Rightarrow> int"
  engineSort :: "(jsval \<Rightarrow> jsval \<Rightarrow> jsnum) \<Rightarrow> jsval list \<Rightarrow> jsval list"

record pagination =
  total :: nat
  page :: jsnum
  limit :: jsnum
  totalPages :: jsnum
  hasNext :: bool
  hasPrev :: bool

datatype payload =
    ErrorBody string
  | FileErrorBody string "string list"
  | ValidationBody string "(string \<times> string) list"
  | ListBody "obj list" pagination
  | DataBody obj
  | FiltersBody string string nat "jsval list"

text \<open>How a handler ends: a JSON response with its status, the error handed to the next
  middleware, or (in the older router) an error thrown inside a \<open>catch\<close> block, which leaves
  the handler as a rejected promise.\<close>

datatype response = Json nat payload | Next error | Rejected error

section \<open>The list handler\<close>

definition reserved :: "string list" where
  "reserved = [''page'', ''limit'', ''sort'', ''fields'', ''search'']"

text \<open>\<open>const { page = 1, limit = 10, sort, fields, search, ...filters } = req.query\<close>\<close>

definition filtersOf :: "(string \<times> qval) list \<Rightarrow> (string \<times> qval) list" where
  "filtersOf q = filter (\<lambda>kv. fst kv \<notin> set reserved) q"

text \<open>\<open>parseInt(String(page))\<close> with the default \<open>1\<close>, which is a number and parses to
  itself.\<close>

definition parsePage :: "(string \<times> qval) list \<Rightarrow> jsnum" where
  "parsePage q = (case map_of q ''page'' of None \<Rightarrow> Finite 1 | Some v \<Rightarrow> parseInt (toStr v))"

definition parseLimit :: "(string \<times> qval) list \<Rightarrow> jsnum" where
  "parseLimit q = (case map_of q ''limit'' of None \<Rightarrow> Finite 10 | Some v \<Rightarrow> parseInt (toStr v))"

definition pageNum :: "(string \<times> qval) list \<Rightarrow> jsnum" where
  "pageNum q = mathMax (Finite 1) (parsePage q)"

definition limitNum :: "(string \<times> qval) list \<Rightarrow> jsnum" where
  "limitNum q = mathMin (Finite 100) (mathMax (Finite 1) (parseLimit q))"

definition skip :: "(string \<times> qval) list \<Rightarrow> jsnum" where
  "skip q = jsMul (jsSub (pageNum q) (Finite 1)) (limitNum q)"

text \<open>
  The search clause. In the typed router the term is converted to a string; in the other
  one \<open>search.trim()\<close> is called on the value itself, which throws a TypeError on an array
  or object.
\<close>

definition searchTerm :: "variant \<Rightarrow> (string \<times> qval) list \<Rightarrow> error + string option" where
  "searchTerm v q =
     (case map_of q ''search'' of
        None \<Rightarrow> Inr None
      | Some (QStr s) \<Rightarrow> Inr (if s \<noteq> [] \<and> trim s \<noteq> [] then Some (trim s) else None)
      | Some val \<Rightarrow>
          (case v of
             TS \<Rightarrow> Inr (if trim (toStr val) \<noteq> [] then Some (trim (toStr val)) else None)
           | JS \<Rightarrow> Inl (typeError ''search.trim is not a function'')))"

definition addSearch :: "string list \<Rightarrow> string option \<Rightarrow> obj \<Rightarrow> obj" where
  "addSearch searchFields term q =
     (case term of
        Some t \<Rightarrow>
          if length searchFields > 0
          then setProp ''$or''
                 (VArr (map (\<lambda>field. VObj [(field, VObj [(''$regex'', VStr t), (''$options'', VStr ''i'')])])
                            searchFields)) q
          else q
      | None \<Rightarrow> q)"

text \<open>\<open>fields ? String(fields).split(",").join(" ") : ""\<close>\<close>

definition selectFields :: "variant \<Rightarrow> (string \<times> qval) list \<Rightarrow> error + string" where
  "selectFields v q =
     (case map_of q ''fields'' of
        None \<Rightarrow> Inr []
      | Some (QStr s) \<Rightarrow> Inr (map (\<lambda>c. if c = CHR '','' then CHR '' '' else c) s)
      | Some val \<Rightarrow>
          (case v of
             TS \<Rightarrow> Inr (map (\<lambda>c. if c = CHR '','' then CHR '' '' else c) (toStr val))
           | JS \<Rightarrow> Inl (typeError ''fields.split is not a function'')))"

text \<open>The sort argument: \<open>String(sort)\<close>, with the default \<open>-createdAt\<close>. The older router
  hands a value that is not a string over as it came; the call records its string.\<close>

definition sortOf :: "(string \<times> qval) list \<Rightarrow> string" where
  "sortOf q = (case map_of q ''sort'' of None \<Rightarrow> ''-createdAt'' | Some val \<Rightarrow> toStr val)"

definition paginationOf :: "nat \<Rightarrow> jsnum \<Rightarrow> jsnum \<Rightarrow> pagination" where
  "paginationOf n p l =
     \<lparr>total = n, page = p, limit = l,
      totalPages = mathCeil (jsDiv (Finite (of_nat n)) l),
      hasNext = jsLess p (mathCeil (jsDiv (Finite (of_nat n)) l)),
      hasPrev = jsLess (Finite 1) p\<rparr>"

text \<open>The predicate of a list request: the filter loop, then the search clause.\<close>

definition compileQuery :: "variant \<Rightarrow> RouterOptions \<Rightarrow> (string \<times> qval) list \<Rightarrow> error + obj" where
  "compileQuery v opts q =
     (case buildQuery v (filterBy opts) [] (filtersOf q) of
        Inl e \<Rightarrow> Inl e
      | Inr q1 \<Rightarrow>
          (case searchTerm v q of
             Inl e \<Rightarrow> Inl e
           | Inr term \<Rightarrow> Inr (addSearch (searchBy opts) term q1)))"

text \<open>
  \<open>router.get("/", ...)\<close>. The page query and the count query are started together by
  \<open>Promise.all\<close>, so both calls are made whatever the other one answers. When both fail,
  the error of the page query is the one handed on.
\<close>

definition listHandler :: "variant \<Rightarrow> world \<Rightarrow> RouterOptions \<Rightarrow> request \<Rightarrow> response \<times> call list" where
  "listHandler v w opts req =
     (let q = query req in
      case compileQuery v opts q of
        Inl e \<Rightarrow> (Next e, [])
      | Inr pred \<Rightarrow>
          (case selectFields v q of
             Inl e \<Rightarrow> (Next e, [])
           | Inr sel \<Rightarrow>
               (let c1 = Find pred sel (sortOf q) (skip q) (limitNum q);
                    c2 = CountDocuments pred
                in case dbFind w [] pred sel (sortOf q) (skip q) (limitNum q) of
                     Inl e \<Rightarrow> (Next e, [c1, c2])
                   | Inr docs \<Rightarrow>
                       (case dbCountDocuments w [c1] pred of
                          Inl e \<Rightarrow> (Next e, [c1, c2])
                        | Inr n \<Rightarrow>
                            (Json 200 (ListBody docs (paginationOf n (pageNum q) (limitNum q))),
                             [c1, c2])))))"

section \<open>File fields\<close>

subsection \<open>Text helpers\<close>

definition digitChar :: "nat \<Rightarrow> char" where
  "digitChar d = char_of (48 + d)"

function showNat :: "nat \<Rightarrow> string" where
  "showNat n = (if n < 10 then [digitChar n] else showNat (n div 10) @ [digitChar (n mod 10)])"
  by pat_completeness auto
termination
  by (relation "measure id") auto

declare showNat.simps [simp del]

fun fracDigits :: "nat \<Rightarrow> rat \<Rightarrow> string" where
  "fracDigits 0 r = []"
| "fracDigits (Suc k) r =
     (if r = 0 then []
      else digitChar (nat \<lfloor>r * 10\<rfloor>) # fracDigits k (r * 10 - of_int \<lfloor>r * 10\<rfloor>))"

text \<open>
  The text of a number inside a template string. The model prints the integer part and
  then the decimal expansion of the fraction; this is the text the program prints for
  every integer and for every decimal fraction of up to fifteen significant digits that
  is not smaller than \<open>0.000001\<close>.
\<close>

definition numberToString :: "rat \<Rightarrow> string" where
  "numberToString r =
     (let a = \<bar>r\<bar>; ip = nat \<lfloor>a\<rfloor>; fp = a - of_nat ip
      in (if r < 0 then ''-'' else []) @ showNat ip
         @ (if fp = 0 then [] else CHR ''.'' # fracDigits 20 fp))"

text \<open>\<open>x.toFixed(2)\<close> for \<open>x \<ge> 0\<close>: the nearest multiple of \<open>0.01\<close>, the larger one
  on a tie, always with two decimals.\<close>

definition toFixed2 :: "rat \<Rightarrow> string" where
  "toFixed2 x =
     (let n = nat \<lfloor>x * 100 + 1 / 2\<rfloor>
      in showNat (n div 100) @ [CHR ''.'', digitChar (n mod 100 div 10), digitChar (n mod 10)])"

text \<open>\<open>s.toLowerCase()\<close>: the capital letters are \<open>A\<close> to \<open>Z\<close> and, above \<open>0x7F\<close>,
  \<open>0xC0\<close> to \<open>0xDE\<close> without the multiplication sign \<open>0xD7\<close>; the small letter of each
  lies 32 code units higher.\<close>

definition toLowerCase :: "string \<Rightarrow> string" where
  "toLowerCase s =
     map (\<lambda>c. let n = (of_char c :: nat)
               in if (65 \<le> n \<and> n \<le> 90) \<or> (192 \<le> n \<and> n \<le> 222 \<and> n \<noteq> 215)
                  then char_of (n + 32) else c) s"

text \<open>\<open>s.split(",")\<close>: the pieces between the commas; one piece when there is no comma.\<close>

fun split :: "char \<Rightarrow> string \<Rightarrow> string list" where
  "split sep [] = [[]]"
| "split sep (c # cs) =
     (if c = sep then [] # split sep cs
      else (case split sep cs of p # ps \<Rightarrow> (c # p) # ps | [] \<Rightarrow> [[c]]))"

text \<open>\<open>s.replace(pat, rep)\<close> with a string pattern: the first occurrence only.\<close>

fun replaceFirst :: "string \<Rightarrow> string \<Rightarrow> string \<Rightarrow> string" where
  "replaceFirst pat rep [] = (if pat = [] then rep else [])"
| "replaceFirst pat rep (c # cs) =
     (if startsWith (c # cs) pat then rep @ drop (length pat) (c # cs)
      else c # replaceFirst pat rep cs)"

text \<open>
  \<open>path.extname\<close> of the POSIX flavour of Node: trailing slashes are ignored, the last
  path component is taken, and the extension runs from its last dot to its end; there is
  none when the component has no dot, when its only dot is its first character, or when
  the component is \<open>..\<close>.
\<close>

definition lastComponent :: "string \<Rightarrow> string" where
  "lastComponent p =
     rev (takeWhile (\<lambda>c. c \<noteq> CHR ''/'') (dropWhile (\<lambda>c. c = CHR ''/'') (rev p)))"

definition extname :: "string \<Rightarrow> string" where
  "extname p =
     (let comp = lastComponent p;
          post = rev (takeWhile (\<lambda>c. c \<noteq> CHR ''.'') (rev comp));
          pre = take (length comp - Suc (length post)) comp
      in if CHR ''.'' \<notin> set comp \<or> pre = [] \<or> comp = ''..'' then []
         else CHR ''.'' # post)"

subsection \<open>Validation\<close>

text \<open>\<open>files?.[ff.fieldName]?.[0]\<close>\<close>

definition uploadedFor :: "uploads \<Rightarrow> FileFieldConfig \<Rightarrow> MulterFile option" where
  "uploadedFor fs ff =
     (case fs of
        None \<Rightarrow> None
      | Some m \<Rightarrow> (case map_of m (fieldName ff) of
                     None \<Rightarrow> None
                   | Some [] \<Rightarrow> None
                   | Some (f # _) \<Rightarrow> Some f))"

definition ruleMatches :: "string \<Rightarrow> string \<Rightarrow> string \<Rightarrow> bool" where
  "ruleMatches mime ext rule =
     (if startsWith rule ''.'' then ext = rule
      else if endsWith rule ''/*'' then startsWith mime (replaceFirst ''/*'' ''/'' rule)
      else mime = rule)"

definition isFileAccepted :: "MulterFile \<Rightarrow> string \<Rightarrow> bool" where
  "isFileAccepted file acc =
     (let rules = map (\<lambda>r. toLowerCase (trim r)) (split CHR '','' acc);
          mime = toLowerCase (mimetype file);
          ext = toLowerCase (extname (originalname file))
      in list_ex (ruleMatches mime ext) rules)"

definition requiredMessage :: "FileFieldConfig \<Rightarrow> string" where
  "requiredMessage ff = ''File field \"'' @ fieldName ff @ ''\" is required''"

definition sizeMessage :: "FileFieldConfig \<Rightarrow> rat \<Rightarrow> MulterFile \<Rightarrow> string" where
  "sizeMessage ff mx f =
     ''File \"'' @ fieldName ff @ ''\" exceeds max size of '' @ numberToString mx
       @ ''MB (got '' @ toFixed2 (of_nat (file_size f) / (1024 * 1024)) @ ''MB)''"

definition acceptMessage :: "FileFieldConfig \<Rightarrow> string \<Rightarrow> MulterFile \<Rightarrow> string" where
  "acceptMessage ff acc f =
     ''File \"'' @ fieldName ff @ ''\" type \"'' @ mimetype f @ ''\" not allowed. Accepted: '' @ acc"

text \<open>\<open>ff.maxSize && uploaded.size > ff.maxSize * 1024 * 1024\<close>. The maximum is
  taken by the decimal value the configuration writes; multiplying a double by \<open>1024\<close>
  is exact, and for a maximum of up to nine significant digits no whole number of bytes
  separates the two products.\<close>

definition tooLarge :: "FileFieldConfig \<Rightarrow> MulterFile \<Rightarrow> bool" where
  "tooLarge ff f =
     (case maxSize ff of
        None \<Rightarrow> False
      | Some mx \<Rightarrow> mx \<noteq> 0 \<and> of_nat (file_size f) > mx * 1024 * 1024)"

text \<open>\<open>ff.accept && !isFileAccepted(uploaded, ff.accept)\<close>\<close>

definition notAccepted :: "FileFieldConfig \<Rightarrow> MulterFile \<Rightarrow> bool" where
  "notAccepted ff f =
     (case accept ff of
        None \<Rightarrow> False
      | Some acc \<Rightarrow> acc \<noteq> [] \<and> \<not> isFileAccepted f acc)"

text \<open>The loop of \<open>validateFiles\<close>, with the array \<open>errors\<close> as an accumulator.\<close>

fun validateLoop :: "uploads \<Rightarrow> bool \<Rightarrow> string list \<Rightarrow> FileFieldConfig list \<Rightarrow> string list" where
  "validateLoop fs isCreate errs [] = errs"
| "validateLoop fs isCreate errs (ff # ffs) =
     (case uploadedFor fs ff of
        None \<Rightarrow>
          if required ff = Some True \<and> isCreate
          then validateLoop fs isCreate (errs @ [requiredMessage ff]) ffs
          else validateLoop fs isCreate errs ffs
      | Some f \<Rightarrow>
          (let errs1 = (if tooLarge ff f then errs @ [sizeMessage ff (the (maxSize ff)) f] else errs);
               errs2 = (if notAccepted ff f then errs1 @ [acceptMessage ff (the (accept ff)) f]
                        else errs1)
           in validateLoop fs isCreate errs2 ffs))"

definition validateFiles :: "uploads \<Rightarrow> FileFieldConfig list \<Rightarrow> bool \<Rightarrow> string list" where
  "validateFiles fs ffs isCreate = validateLoop fs isCreate [] ffs"

subsection \<open>Upload, rollback, old attachments\<close>

text \<open>
  The loop of \<open>uploadFiles\<close>. The map \<open>urls\<close> is an object, so a field name that occurs
  twice keeps the later URL only. A rejected \<open>put\<close> rejects the whole upload.
\<close>

fun uploadLoop ::
  "world \<Rightarrow> uploads \<Rightarrow> string \<Rightarrow> string \<Rightarrow> string \<Rightarrow> FileFieldConfig list
     \<Rightarrow> (string \<times> string) list \<Rightarrow> call list \<Rightarrow> (error + (string \<times> string) list) \<times> call list" where
  "uploadLoop w fs resourceName documentId token [] urls tr = (Inr urls, tr)"
| "uploadLoop w fs resourceName documentId token (ff # ffs) urls tr =
     (case uploadedFor fs ff of
        None \<Rightarrow> uploadLoop w fs resourceName documentId token ffs urls tr
      | Some f \<Rightarrow>
          (let blobPath = resourceName @ ''/'' @ documentId @ ''/'' @ fieldName ff @ ''-''
                            @ showNat (dateNow w tr) @ extname (originalname f);
               tr1 = tr @ [BlobPut blobPath (buffer f) token]
           in case blobPut w tr blobPath (buffer f) of
                Inl e \<Rightarrow> (Inl e, tr1)
              | Inr url \<Rightarrow>
                  uploadLoop w fs resourceName documentId token ffs
                    (setProp (fieldName ff) url urls) tr1))"

definition uploadFiles ::
  "world \<Rightarrow> uploads \<Rightarrow> FileFieldConfig list \<Rightarrow> string \<Rightarrow> string \<Rightarrow> string \<Rightarrow> call list
     \<Rightarrow> (error + (string \<times> string) list) \<times> call list" where
  "uploadFiles w fs ffs resourceName documentId token tr =
     uploadLoop w fs resourceName documentId token ffs [] tr"

text \<open>\<open>deleteBlobs\<close>: one \<open>del\<close> per URL, in order; a failing delete is swallowed, so the
  function always returns.\<close>

definition deleteBlobs :: "string list \<Rightarrow> string \<Rightarrow> call list \<Rightarrow> call list" where
  "deleteBlobs urls token tr = tr @ map (\<lambda>url. BlobDel url token) urls"

fun extractBlobUrls :: "obj \<Rightarrow> FileFieldConfig list \<Rightarrow> string list" where
  "extractBlobUrls doc [] = []"
| "extractBlobUrls doc (ff # ffs) =
     (case getProp doc (fieldName ff) of
        Some (VStr s) \<Rightarrow> if startsWith s ''http'' then s # extractBlobUrls doc ffs
                         else extractBlobUrls doc ffs
      | _ \<Rightarrow> extractBlobUrls doc ffs)"

text \<open>\<open>Object.assign(body, uploadedUrls)\<close>\<close>

fun assignUrls :: "obj \<Rightarrow> (string \<times> string) list \<Rightarrow> obj" where
  "assignUrls b [] = b"
| "assignUrls b ((k, u) # kus) = assignUrls (setProp k (VStr u) b) kus"

section \<open>Mutation handlers\<close>

definition hasFiles :: "RouterOptions \<Rightarrow> bool" where
  "hasFiles opts =
     (length (fileFields opts) > 0 \<and> (case blobToken opts of None \<Rightarrow> False | Some t \<Rightarrow> t \<noteq> []))"

text \<open>\<open>const body = { ...req.body }\<close>: an absent body spreads to the empty object.\<close>

definition bodyOf :: "request \<Rightarrow> obj" where
  "bodyOf req = (case body req of None \<Rightarrow> [] | Some b \<Rightarrow> b)"

definition hasBody :: "request \<Rightarrow> bool" where
  "hasBody req = (length (bodyOf req) > 0)"

definition hasUploadedFiles :: "request \<Rightarrow> bool" where
  "hasUploadedFiles req = (case files req of None \<Rightarrow> False | Some m \<Rightarrow> length m > 0)"

definition emptyBody :: payload where
  "emptyBody = ErrorBody ''Request body cannot be empty''"

definition notFound :: "string \<Rightarrow> string \<Rightarrow> response" where
  "notFound resourceName ident =
     Json 404 (ErrorBody (resourceName @ '' with id \"'' @ ident @ ''\" not found''))"

definition invalidId :: "string \<Rightarrow> response" where
  "invalidId ident = Json 400 (ErrorBody (''Invalid ID format: \"'' @ ident @ ''\"''))"

definition duplicateMessage :: "string list \<Rightarrow> string" where
  "duplicateMessage ks =
     ''Duplicate value for field \"'' @ (case ks of [] \<Rightarrow> ''undefined'' | k # _ \<Rightarrow> k) @ ''\"''"

text \<open>The \<open>catch\<close> block of the typed \<open>POST\<close> handler.\<close>

definition catchCreate :: "error \<Rightarrow> response" where
  "catchCreate e =
     (if name e = ''ValidationError'' \<and> errors e \<noteq> None
      then Json 400 (ValidationBody ''Validation failed'' (the (errors e)))
      else if code e = Some 11000 \<and> keyPattern e \<noteq> None
      then Json 409 (ErrorBody (duplicateMessage (the (keyPattern e))))
      else Next e)"

text \<open>The \<open>catch\<close> block of the typed \<open>PUT\<close> and \<open>PATCH\<close> handlers.\<close>

definition catchUpdate :: "string \<Rightarrow> error \<Rightarrow> response" where
  "catchUpdate ident e =
     (if name e = ''ValidationError'' \<and> errors e \<noteq> None
      then Json 400 (ValidationBody ''Validation failed'' (the (errors e)))
      else if kind e = Some ''ObjectId'' then invalidId ident
      else Next e)"

text \<open>
  The inner \<open>try\<close> of the typed \<open>POST\<close> handler: \<open>Model.create(body)\<close>, and when it throws
  and a file was uploaded, the deletion of every uploaded URL before the error is thrown
  on to the outer \<open>catch\<close>.
\<close>

definition persistCreate ::
  "world \<Rightarrow> RouterOptions \<Rightarrow> obj \<Rightarrow> (string \<times> string) list \<Rightarrow> call list \<Rightarrow> response \<times> call list" where
  "persistCreate w opts b uploadedUrls tr =
     (case dbCreate w tr b of
        Inr doc \<Rightarrow> (Json 201 (DataBody doc), tr @ [Create b])
      | Inl e \<Rightarrow>
          (catchCreate e,
           if length uploadedUrls > 0
           then deleteBlobs (map snd uploadedUrls) (the (blobToken opts)) (tr @ [Create b])
           else tr @ [Create b]))"

definition postHandler :: "world \<Rightarrow> string \<Rightarrow> RouterOptions \<Rightarrow> request \<Rightarrow> response \<times> call list" where
  "postHandler w resourceName opts req =
     (if \<not> hasBody req \<and> \<not> hasUploadedFiles req then (Json 400 emptyBody, [])
      else if hasFiles opts then
        (let fileErrors = validateFiles (files req) (fileFields opts) True in
         if length fileErrors > 0
         then (Json 400 (FileErrorBody ''File validation failed'' fileErrors), [])
         else
           (let docId = newObjectId w [];
                body1 = setProp ''_id'' (VObjectId docId) (bodyOf req)
            in case uploadFiles w (files req) (fileFields opts) resourceName docId
                      (the (blobToken opts)) [] of
                 (Inl e, tr) \<Rightarrow> (catchCreate e, tr)
               | (Inr uploadedUrls, tr) \<Rightarrow>
                   persistCreate w opts (assignUrls body1 uploadedUrls) uploadedUrls tr))
      else persistCreate w opts (bodyOf req) [] [])"

text \<open>
  The tail shared by the typed \<open>PUT\<close> and \<open>PATCH\<close> handlers: the update, the rollback of
  the new uploads when no document has the identifier, the cleanup of the old blobs
  otherwise. \<open>overwrite\<close> tells the full replacement from the \<open>$set\<close> update.
\<close>

definition persistUpdate ::
  "world \<Rightarrow> string \<Rightarrow> RouterOptions \<Rightarrow> string \<Rightarrow> bool \<Rightarrow> obj \<Rightarrow> (string \<times> string) list
     \<Rightarrow> string list \<Rightarrow> call list \<Rightarrow> response \<times> call list" where
  "persistUpdate w resourceName opts ident overwrite b uploadedUrls oldBlobUrls tr =
     (let tr1 = tr @ [FindByIdAndUpdate ident b overwrite] in
      case dbFindByIdAndUpdate w tr ident b overwrite of
        Inl e \<Rightarrow> (catchUpdate ident e, tr1)
      | Inr None \<Rightarrow>
          (notFound resourceName ident,
           if length uploadedUrls > 0
           then deleteBlobs (map snd uploadedUrls) (the (blobToken opts)) tr1 else tr1)
      | Inr (Some doc) \<Rightarrow>
          (Json 200 (DataBody doc),
           if length oldBlobUrls > 0
           then deleteBlobs oldBlobUrls (the (blobToken opts)) tr1 else tr1))"

definition putHandler :: "world \<Rightarrow> string \<Rightarrow> RouterOptions \<Rightarrow> request \<Rightarrow> response \<times> call list" where
  "putHandler w resourceName opts req =
     (let ident = params_id req in
      if \<not> hasBody req \<and> \<not> hasUploadedFiles req then (Json 400 emptyBody, [])
      else if hasFiles opts then
        (let fileErrors = validateFiles (files req) (fileFields opts) False in
         if length fileErrors > 0
         then (Json 400 (FileErrorBody ''File validation failed'' fileErrors), [])
         else
           (case dbFindById w [] ident of
              Inl e \<Rightarrow> (catchUpdate ident e, [FindById ident])
            | Inr oldDoc \<Rightarrow>
                (let oldBlobUrls = (case oldDoc of None \<Rightarrow> []
                                    | Some d \<Rightarrow> extractBlobUrls d (fileFields opts))
                 in case uploadFiles w (files req) (fileFields opts) resourceName ident
                           (the (blobToken opts)) [FindById ident] of
                      (Inl e, tr) \<Rightarrow> (catchUpdate ident e, tr)
                    | (Inr uploadedUrls, tr) \<Rightarrow>
                        persistUpdate w resourceName opts ident True
                          (assignUrls (bodyOf req) uploadedUrls) uploadedUrls oldBlobUrls tr)))
      else persistUpdate w resourceName opts ident True (bodyOf req) [] [] [])"

text \<open>The old URLs a \<open>PATCH\<close> schedules for deletion: those of the file fields for which
  the request carries an entry.\<close>

fun oldUrlsToDelete :: "uploads \<Rightarrow> obj \<Rightarrow> FileFieldConfig list \<Rightarrow> string list" where
  "oldUrlsToDelete fs doc [] = []"
| "oldUrlsToDelete fs doc (ff # ffs) =
     (if (case fs of None \<Rightarrow> False | Some m \<Rightarrow> map_of m (fieldName ff) \<noteq> None)
      then (case getProp doc (fieldName ff) of
              Some (VStr s) \<Rightarrow> if startsWith s ''http'' then s # oldUrlsToDelete fs doc ffs
                               else oldUrlsToDelete fs doc ffs
            | _ \<Rightarrow> oldUrlsToDelete fs doc ffs)
      else oldUrlsToDelete fs doc ffs)"

definition patchHandler :: "world \<Rightarrow> string \<Rightarrow> RouterOptions \<Rightarrow> request \<Rightarrow> response \<times> call list" where
  "patchHandler w resourceName opts req =
     (let ident = params_id req in
      if \<not> hasBody req \<and> \<not> hasUploadedFiles req then (Json 400 emptyBody, [])
      else if hasFiles opts \<and> hasUploadedFiles req then
        (let fileErrors = validateFiles (files req) (fileFields opts) False in
         if length fileErrors > 0
         then (Json 400 (FileErrorBody ''File validation failed'' fileErrors), [])
         else
           (case dbFindById w [] ident of
              Inl e \<Rightarrow> (catchUpdate ident e, [FindById ident])
            | Inr oldDoc \<Rightarrow>
                (let oldBlobUrlsToDelete =
                       (case oldDoc of None \<Rightarrow> []
                        | Some d \<Rightarrow> oldUrlsToDelete (files req) d (fileFields opts))
                 in case uploadFiles w (files req) (fileFields opts) resourceName ident
                           (the (blobToken opts)) [FindById ident] of
                      (Inl e, tr) \<Rightarrow> (catchUpdate ident e, tr)
                    | (Inr uploadedUrls, tr) \<Rightarrow>
                        persistUpdate w resourceName opts ident False
                          (assignUrls (bodyOf req) uploadedUrls) uploadedUrls
                          oldBlobUrlsToDelete tr)))
      else persistUpdate w resourceName opts ident False (bodyOf req) [] [] [])"

subsection \<open>The handlers of the older router\<close>

text \<open>
  The older router has no file fields. Its \<open>catch\<close> blocks read \<open>err.errors\<close> and
  \<open>err.keyPattern\<close> without a guard, so an error that lacks them makes the block itself
  throw.
\<close>

definition catchCreate_js :: "error \<Rightarrow> response" where
  "catchCreate_js e =
     (if name e = ''ValidationError''
      then (case errors e of
              None \<Rightarrow> Rejected (typeError ''Cannot convert undefined or null to object'')
            | Some es \<Rightarrow> Json 400 (ValidationBody ''Validation failed'' es))
      else if code e = Some 11000
      then (case keyPattern e of
              None \<Rightarrow> Rejected (typeError ''Cannot convert undefined or null to object'')
            | Some ks \<Rightarrow> Json 409 (ErrorBody (duplicateMessage ks)))
      else Next e)"

definition catchUpdate_js :: "string \<Rightarrow> error \<Rightarrow> response" where
  "catchUpdate_js ident e =
     (if name e = ''ValidationError''
      then (case errors e of
              None \<Rightarrow> Rejected (typeError ''Cannot convert undefined or null to object'')
            | Some es \<Rightarrow> Json 400 (ValidationBody ''Validation failed'' es))
      else if kind e = Some ''ObjectId'' then invalidId ident
      else Next e)"

text \<open>\<open>!req.body || Object.keys(req.body).length === 0\<close>\<close>

definition noBody_js :: "request \<Rightarrow> bool" where
  "noBody_js req = (case body req of None \<Rightarrow> True | Some b \<Rightarrow> length b = 0)"

definition postHandler_js :: "world \<Rightarrow> request \<Rightarrow> response \<times> call list" where
  "postHandler_js w req =
     (if noBody_js req then (Json 400 emptyBody, [])
      else (case dbCreate w [] (the (body req)) of
              Inr doc \<Rightarrow> (Json 201 (DataBody doc), [Create (the (body req))])
            | Inl e \<Rightarrow> (catchCreate_js e, [Create (the (body req))])))"

definition updateHandler_js ::
  "world \<Rightarrow> string \<Rightarrow> bool \<Rightarrow> request \<Rightarrow> response \<times> call list" where
  "updateHandler_js w resourceName overwrite req =
     (let ident = params_id req in
      if noBody_js req then (Json 400 emptyBody, [])
      else (case dbFindByIdAndUpdate w [] ident (the (body req)) overwrite of
              Inl e \<Rightarrow> (catchUpdate_js ident e, [FindByIdAndUpdate ident (the (body req)) overwrite])
            | Inr None \<Rightarrow>
                (notFound resourceName ident, [FindByIdAndUpdate ident (the (body req)) overwrite])
            | Inr (Some doc) \<Rightarrow>
                (Json 200 (DataBody doc), [FindByIdAndUpdate ident (the (body req)) overwrite])))"

definition putHandler_js :: "world \<Rightarrow> string \<Rightarrow> request \<Rightarrow> response \<times> call list" where
  "putHandler_js w resourceName req = updateHandler_js w resourceName True req"

definition patchHandler_js :: "world \<Rightarrow> string \<Rightarrow> request \<Rightarrow> response \<times> call list" where
  "patchHandler_js w resourceName req = updateHandler_js w resourceName False req"

section \<open>Distinct values of a filterable field\<close>

text \<open>The comparator handed to \<open>values.sort\<close>.\<close>

definition compareValues :: "(string \<Rightarrow> string \<Rightarrow> int) \<Rightarrow> jsval \<Rightarrow> jsval \<Rightarrow> jsnum" where
  "compareValues lc a b =
     (case (a, b) of
        (VStr s, VStr t) \<Rightarrow> Finite (of_int (lc s t))
      | (VNum x, VNum y) \<Rightarrow> jsSub x y
      | _ \<Rightarrow> Finite 0)"

text \<open>
  \<open>Array.prototype.sort\<close> is the engine's. The language fixes its result when the
  comparator is consistent on the elements: the sorted arrangement that keeps the order
  of the elements that compare equal. This is what the insertion below computes, which
  puts each element in turn into the sorted part, behind the elements it does not
  precede. A comparison that yields \<open>NaN\<close> counts as \<open>0\<close>.
\<close>

fun insertSorted :: "('a \<Rightarrow> 'a \<Rightarrow> jsnum) \<Rightarrow> 'a \<Rightarrow> 'a list \<Rightarrow> 'a list" where
  "insertSorted cmp x [] = [x]"
| "insertSorted cmp x (y # ys) =
     (if jsLess (cmp x y) (Finite 0) then x # y # ys else y # insertSorted cmp x ys)"

definition stableSort :: "('a \<Rightarrow> 'a \<Rightarrow> jsnum) \<Rightarrow> 'a list \<Rightarrow> 'a list" where
  "stableSort cmp xs = foldl (\<lambda>acc x. insertSorted cmp x acc) [] xs"

text \<open>
  A comparator is consistent on a set of values when \<open>a\<close> is before \<open>b\<close> exactly if
  \<open>b\<close> is after \<open>a\<close>, and not being after is transitive.
\<close>

definition consistentOn :: "('a \<Rightarrow> 'a \<Rightarrow> jsnum) \<Rightarrow> 'a set \<Rightarrow> bool" where
  "consistentOn cmp S =
     ((\<forall>a\<in>S. \<forall>b\<in>S. jsLess (cmp a b) (Finite 0) = jsLess (Finite 0) (cmp b a))
      \<and> (\<forall>a\<in>S. \<forall>b\<in>S. \<forall>c\<in>S.
            \<not> jsLess (Finite 0) (cmp a b) \<and> \<not> jsLess (Finite 0) (cmp b c)
              \<longrightarrow> \<not> jsLess (Finite 0) (cmp a c)))"

text \<open>
  What the language promises of a sort: the result is a rearrangement of the array, and
  it is the stable sorted one whenever the comparator is consistent on the elements. For
  any other comparator the order is left to the engine.
\<close>

definition sortContract ::
  "(('a \<Rightarrow> 'a \<Rightarrow> jsnum) \<Rightarrow> 'a list \<Rightarrow> 'a list) \<Rightarrow> bool" where
  "sortContract srt =
     (\<forall>cmp xs. mset (srt cmp xs) = mset xs
        \<and> (consistentOn cmp (set xs) \<longrightarrow> srt cmp xs = stableSort cmp xs))"

text \<open>
  The sort of the engine of Node on an array of fewer than 64 elements. The initial run
  is counted: it is descending when the second element is before the first, and it goes
  on while each element is before its predecessor (descending) or not before it
  (ascending). A descending run is reversed. Every further element is then put into the
  sorted part at the place a binary search finds. Longer arrays are cut into several
  runs that are merged afterwards; this definition does not follow them.
\<close>

fun runLength :: "('a \<Rightarrow> 'a \<Rightarrow> jsnum) \<Rightarrow> bool \<Rightarrow> 'a \<Rightarrow> 'a list \<Rightarrow> nat" where
  "runLength cmp descending previous [] = 0"
| "runLength cmp descending previous (x # xs) =
     (if descending = jsLess (cmp x previous) (Finite 0)
      then Suc (runLength cmp descending x xs) else 0)"

function binarySearch :: "('a \<Rightarrow> 'a \<Rightarrow> jsnum) \<Rightarrow> 'a \<Rightarrow> 'a list \<Rightarrow> nat \<Rightarrow> nat \<Rightarrow> nat" where
  "binarySearch cmp pivot xs left right =
     (if left < right
      then (let mid = left + (right - left) div 2
            in if jsLess (cmp pivot (xs ! mid)) (Finite 0)
               then binarySearch cmp pivot xs left mid
               else binarySearch cmp pivot xs (mid + 1) right)
      else left)"
  by pat_completeness auto
termination
  by (relation "measure (\<lambda>(cmp, pivot, xs, left, right). right - left)") auto

declare binarySearch.simps [simp del]

definition binaryInsert :: "('a \<Rightarrow> 'a \<Rightarrow> jsnum) \<Rightarrow> 'a list \<Rightarrow> 'a \<Rightarrow> 'a list" where
  "binaryInsert cmp xs pivot =
     (let left = binarySearch cmp pivot xs 0 (length xs)
      in take left xs @ [pivot] @ drop left xs)"

definition shortArraySort :: "('a \<Rightarrow> 'a \<Rightarrow> jsnum) \<Rightarrow> 'a list \<Rightarrow> 'a list" where
  "shortArraySort cmp xs =
     (case xs of
        x0 # x1 # rest \<Rightarrow>
          (let descending = jsLess (cmp x1 x0) (Finite 0);
               n = 2 + runLength cmp descending x1 rest;
               run = (if descending then rev (take n xs) else take n xs)
           in foldl (binaryInsert cmp) run (drop n xs))
      | _ \<Rightarrow> xs)"

definition notFilterableMessage :: "string \<Rightarrow> string list \<Rightarrow> string" where
  "notFilterableMessage field allowed =
     ''Field \"'' @ field @ ''\" is not filterable. Allowed filter fields: '' @ join '', '' allowed"

definition filtersHandler ::
  "world \<Rightarrow> string \<Rightarrow> RouterOptions \<Rightarrow> string \<Rightarrow> response \<times> call list" where
  "filtersHandler w resourceName opts field =
     (if \<not> isFilterable_ts (filterBy opts) field
      then (Json 400 (ErrorBody (notFilterableMessage field (filterBy opts))), [])
      else (case dbDistinct w [] field of
              Inl e \<Rightarrow> (Next e, [Distinct field])
            | Inr vals \<Rightarrow>
                (let sortedValues = engineSort w (compareValues (localeCompare w)) vals
                 in (Json 200 (FiltersBody resourceName field (length sortedValues) sortedValues),
                     [Distinct field]))))"

text \<open>The route \<open>GET /filters/:field\<close> is registered only when \<open>filterBy\<close> is not empty.\<close>

definition filtersRoute ::
  "world \<Rightarrow> string \<Rightarrow> RouterOptions \<Rightarrow> string \<Rightarrow> (response \<times> call list) option" where
  "filtersRoute w resourceName opts field =
     (if length (filterBy opts) > 0 then Some (filtersHandler w resourceName opts field) else None)"

section \<open>Reading the compiled predicate\<close>



section \<open>A sample environment\<close>

text \<open>An ordering of strings by their character codes, used as a sample collation.\<close>

fun compareCodes :: "string \<Rightarrow> string \<Rightarrow> int" where
  "compareCodes [] [] = 0"
| "compareCodes [] (y # ys) = - 1"
| "compareCodes (x # xs) [] = 1"
| "compareCodes (x # xs) (y # ys) =
     (if (of_char x :: nat) < of_char y then - 1
      else if (of_char y :: nat) < of_char x then 1
      else compareCodes xs ys)"

text \<open>
  A store that holds twelve documents and answers every call, a blob store that answers
  every upload with a URL built from the path, a clock, an identifier generator and a
  stable sort. The concrete cases below run the handlers against it.
\<close>

definition sampleWorld :: world where
  "sampleWorld =
     \<lparr>dbFind = (\<lambda>tr pred sel srt sk lim. Inr []),
      dbCountDocuments = (\<lambda>tr pred. Inr 12),
      dbDistinct = (\<lambda>tr field. Inr [VStr ''B'', VStr ''A'', VStr ''C'']),
      dbFindById = (\<lambda>tr ident. Inr None),
      dbCreate = (\<lambda>tr b. Inr b),
      dbFindByIdAndUpdate = (\<lambda>tr ident b overwrite. Inr (Some b)),
      dbFindByIdAndDelete = (\<lambda>tr ident. Inr None),
      blobPut = (\<lambda>tr path buf. Inr (''https://blob.example/'' @ path)),
      blobDel = (\<lambda>tr url. Inr ()),
      dateNow = (\<lambda>tr. 1700 + length tr),
      newObjectId = (\<lambda>tr. ''65f0c0ffee0123456789abcd''),
      localeCompare = compareCodes,
      engineSort = stableSort\<rparr>"

definition duplicateKeyError :: error where
  "duplicateKeyError =
     \<lparr>name = ''MongoServerError'', message = ''E11000 duplicate key error'', kind = None,
      code = Some 11000, keyPattern = Some [''email''], errors = None\<rparr>"

text \<open>The same environment with a document store that refuses every \<open>create\<close>.\<close>

definition failingWorld :: world where
  "failingWorld = sampleWorld\<lparr>dbCreate := (\<lambda>tr b. Inl duplicateKeyError)\<rparr>"

text \<open>An environment with the sort of Node's engine and a store that holds a field of
  mixed values; and, with the stable sort, stores that hold a field of numbers and a
  field of booleans and nulls.\<close>

definition mixedWorld :: world where
  "mixedWorld =
     sampleWorld\<lparr>dbDistinct := (\<lambda>tr field. Inr [VStr ''b'', VStr ''a'', VNum (Finite 1)]),
                  engineSort := shortArraySort\<rparr>"

definition numberWorld :: world where
  "numberWorld =
     sampleWorld\<lparr>dbDistinct := (\<lambda>tr field. Inr [VNum (Finite 3), VNum (Finite 1), VNum (Finite 2)])\<rparr>"

definition flagWorld :: world where
  "flagWorld =
     sampleWorld\<lparr>dbDistinct := (\<lambda>tr field. Inr [VBool True, VNull, VBool False])\<rparr>"

definition noOptions :: RouterOptions where
  "noOptions = \<lparr>searchBy = [], filterBy = [], fileFields = [], blobToken = None\<rparr>"

section \<open>Statements of the specification, for comparison\<close>




text \<open>The answers of the blob store to the uploads among the calls \<open>cs\<close> made after the
  calls \<open>tr\<close>: the URL of every \<open>put\<close> that succeeded, in order.\<close>

fun putAnswers :: "world \<Rightarrow> call list \<Rightarrow> call list \<Rightarrow> string list" where
  "putAnswers w tr [] = []"
| "putAnswers w tr (c # cs) =
     (case c of
        BlobPut path buf token \<Rightarrow>
          (case blobPut w tr path buf of Inr url \<Rightarrow> [url] | Inl e \<Rightarrow> [])
      | _ \<Rightarrow> [])
     @ putAnswers w (tr @ [c]) cs"

section \<open>Properties of the filter loop\<close>


lemma keys_setProp: "keys (setProp k v q) = insert k (keys q)"
proof (induction q)
  case Nil
  show ?case by (simp add: keys_def)
next
  case (Cons a q)
  obtain k' v' where a: "a = (k', v')" by (cases a)
  show ?case using Cons.IH by (simp add: a keys_def insert_commute)
qed









lemma getProp_setProp_same: "getProp (setProp k v q) k = Some v"
  by (induction q) (auto simp: getProp_def)

lemma setProp_twice: "setProp k v (setProp k v' q) = setProp k v q"
  by (induction q) auto

lemma Number_empty: "Number [] = Finite 0"
  by (simp add: Number_def trim_def trimEnd_def trimStart_def)

lemma coerce_empty: "coerce v (QStr []) = VNum (Finite 0)"
  by (cases v) (simp_all add: coerce_def Number_empty isNaN_def)



text \<open>
  C2. The two routers disagree on an empty \<open>filterBy\<close>: \<open>createRouter.js\<close> lets every
  field through, \<open>createRouter.ts\<close> lets none through. On a non-empty \<open>filterBy\<close> they
  agree.
\<close>

theorem isFilterable_variants:
  "isFilterable_js [] field \<and> \<not> isFilterable_ts [] field
   \<and> (fb \<noteq> [] \<longrightarrow> isFilterable_js fb g = isFilterable_ts fb g)"
  by (simp add: isFilterable_js_def isFilterable_ts_def)

theorem isFilterable_variants_witness:
  "isFilterable_js [] ''age'' \<and> \<not> isFilterable_ts [] ''age''
   \<and> [''grade''] \<noteq> [] \<and> isFilterable_js [''grade''] ''age'' = isFilterable_ts [''grade''] ''age''
   \<and> isFilterable_ts [''grade''] ''grade''"
  using isFilterable_variants[of "''age''" "[''grade'']" "''age''"]
  by (simp add: isFilterable_ts_def)

text \<open>
  C10. A clause whose raw value is the empty string is coerced to the number \<open>0\<close>:
  \<open>Number("")\<close> is \<open>0\<close>, which is not \<open>NaN\<close>. On a filterable field the equality form
  stores the number \<open>0\<close> under the key, and the operator form writes the number \<open>0\<close>
  under the operator of the field's node (a fresh node when the predicate has none for the
  field and the field is not named like a member of \<open>Object.prototype\<close>); the empty
  string is never stored.
\<close>

theorem empty_value_is_zero:
  assumes "\<not> startsWith key ''_''" and "isFilterable v fb (fieldOf key)"
  shows "coerce v (QStr []) = VNum (Finite 0)
       \<and> (operatorMatch key = None \<longrightarrow>
            filterStep v fb q (key, QStr []) = Inr (setProp key (VNum (Finite 0)) q))
       \<and> (operatorMatch key = Some (field, operator) \<longrightarrow>
            filterStep v fb q (key, QStr []) = setOperator v q field operator (VNum (Finite 0)))
       \<and> (operatorMatch key = Some (field, operator) \<and> getProp q field = None
            \<and> field \<notin> set inheritedNames \<longrightarrow>
            filterStep v fb q (key, QStr [])
              = Inr (setProp field (VObj [(CHR ''$'' # operator, VNum (Finite 0))]) q))"
proof -
  have rx: "\<not> isRegexLiteral (QStr [])"
    by (simp add: isRegexLiteral_def startsWith_def)
  have a: "operatorMatch key = None \<Longrightarrow>
      filterStep v fb q (key, QStr []) = Inr (setProp key (VNum (Finite 0)) q)"
    using assms rx by (simp add: filterStep_def Let_def fieldOf_def coerce_empty)
  have b: "operatorMatch key = Some (field, operator) \<Longrightarrow>
      filterStep v fb q (key, QStr []) = setOperator v q field operator (VNum (Finite 0))"
    using assms by (simp add: filterStep_def Let_def fieldOf_def coerce_empty)
  have c: "getProp q field = None \<Longrightarrow> field \<notin> set inheritedNames \<Longrightarrow>
      setOperator v q field operator (VNum (Finite 0))
        = Inr (setProp field (VObj [(CHR ''$'' # operator, VNum (Finite 0))]) q)"
    by (simp add: setOperator_def Let_def truthy_def getProp_setProp_same setProp_twice)
  show ?thesis using a b c by (simp add: coerce_empty)
qed

theorem empty_value_is_zero_witness:
  "\<not> startsWith ''age'' ''_'' \<and> isFilterable TS [''age''] (fieldOf ''age'')
   \<and> operatorMatch ''age'' = None
   \<and> filterStep TS [''age''] [] (''age'', QStr []) = Inr [(''age'', VNum (Finite 0))]
   \<and> \<not> startsWith ''age_gte'' ''_'' \<and> isFilterable JS [''age''] (fieldOf ''age_gte'')
   \<and> operatorMatch ''age_gte'' = Some (''age'', ''gte'') \<and> getProp [] ''age'' = None
   \<and> ''age'' \<notin> set inheritedNames
   \<and> filterStep JS [''age''] [] (''age_gte'', QStr [])
       = Inr [(''age'', VObj [(''$gte'', VNum (Finite 0))])]"
proof -
  have m1: "operatorMatch ''age'' = None" by code_simp
  have m2: "operatorMatch ''age_gte'' = Some (''age'', ''gte'')" by code_simp
  have s1: "\<not> startsWith ''age'' ''_''" by (simp add: startsWith_def)
  have s2: "\<not> startsWith ''age_gte'' ''_''" by (simp add: startsWith_def)
  have f1: "isFilterable TS [''age''] (fieldOf ''age'')"
    by (simp add: fieldOf_def m1 isFilterable_def isFilterable_ts_def)
  have f2: "isFilterable JS [''age''] (fieldOf ''age_gte'')"
    by (simp add: fieldOf_def m2 isFilterable_def isFilterable_js_def)
  have g: "getProp [] ''age'' = None" by (simp add: getProp_def)
  have i: "''age'' \<notin> set inheritedNames" by (simp add: inheritedNames_def)
  have a: "filterStep TS [''age''] [] (''age'', QStr []) = Inr [(''age'', VNum (Finite 0))]"
    using empty_value_is_zero[OF s1 f1, where q = "[]"] m1 by simp
  have b: "filterStep JS [''age''] [] (''age_gte'', QStr [])
             = Inr [(''age'', VObj [(''$gte'', VNum (Finite 0))])]"
    using empty_value_is_zero[OF s2 f2, where q = "[]" and field = "''age''" and operator = "''gte''"]
      m2 g i by auto
  show ?thesis using a b m1 m2 s1 s2 f1 f2 g i by blast
qed

section \<open>Properties of the rounding\<close>

lemma pow2_powi: "pow2 e = 2 powi e"
  by (simp add: pow2_def power_int_def inverse_eq_divide power_one_over)

lemma pow2_pos: "0 < pow2 e"
  by (simp add: pow2_powi)

lemma pow2_add: "pow2 (a + b) = pow2 a * pow2 b"
  by (simp add: pow2_powi power_int_add)

lemma pow2_mono: "a \<le> b \<Longrightarrow> pow2 a \<le> pow2 b"
  by (simp add: pow2_powi power_int_increasing)

lemma pow2_nat: "0 \<le> e \<Longrightarrow> pow2 e = of_int (2 ^ nat e)"
  by (simp add: pow2_def)

lemma bitLength_bounds:
  "0 < n \<Longrightarrow> 1 \<le> bitLength n \<and> 2 ^ nat (bitLength n - 1) \<le> n \<and> n < 2 ^ nat (bitLength n)"
proof (induction n rule: bitLength.induct)
  case (1 n)
  show ?case
  proof (cases "n div 2 = 0")
    case True
    with 1(2) have n1: "n = 1" by presburger
    have "bitLength 1 = 1" by (simp add: bitLength.simps[of 1] bitLength.simps[of 0])
    with n1 show ?thesis by simp
  next
    case False
    with 1(2) have pos: "0 < n div 2" by presburger
    define b where "b = bitLength (n div 2)"
    have ih: "1 \<le> b \<and> 2 ^ nat (b - 1) \<le> n div 2 \<and> n div 2 < 2 ^ nat b"
      using 1(1) 1(2) pos by (simp add: b_def)
    have bl: "bitLength n = 1 + b"
      using 1(2) by (simp add: bitLength.simps[of n] b_def)
    have nb: "nat b = Suc (nat (b - 1))" using ih by arith
    have lo: "2 ^ nat b \<le> n"
    proof -
      have "(2::int) ^ nat b = 2 * 2 ^ nat (b - 1)" by (simp add: nb)
      also have "\<dots> \<le> 2 * (n div 2)" using ih by simp
      also have "\<dots> \<le> n" by presburger
      finally show ?thesis .
    qed
    have hi: "n < 2 ^ nat (1 + b)"
    proof -
      have "n < 2 * (n div 2 + 1)" by presburger
      also have "\<dots> \<le> 2 * 2 ^ nat b" using ih by simp
      also have "\<dots> = 2 ^ nat (1 + b)" using ih by (simp add: nat_add_distrib)
      finally show ?thesis .
    qed
    show ?thesis using ih lo hi by (simp add: bl)
  qed
qed

lemma exponentOf_bounds:
  assumes "0 < a"
  shows "pow2 (exponentOf a) \<le> a \<and> a < pow2 (exponentOf a + 1)"
proof -
  obtain p q where pq: "quotient_of a = (p, q)" by (cases "quotient_of a")
  have qpos: "0 < q" using quotient_of_denom_pos[OF pq] .
  have a: "a = of_int p / of_int q" using quotient_of_div[OF pq] .
  have ppos: "0 < p" using assms qpos a by (simp add: zero_less_divide_iff)
  define bp where "bp = bitLength p"
  define bq where "bq = bitLength q"
  have P: "1 \<le> bp \<and> 2 ^ nat (bp - 1) \<le> p \<and> p < 2 ^ nat bp"
    using bitLength_bounds[OF ppos] by (simp add: bp_def)
  have Q: "1 \<le> bq \<and> 2 ^ nat (bq - 1) \<le> q \<and> q < 2 ^ nat bq"
    using bitLength_bounds[OF qpos] by (simp add: bq_def)
  have p_lo: "pow2 (bp - 1) \<le> of_int p"
    using P by (simp add: pow2_nat del: of_int_power) 
  have p_hi: "of_int p < pow2 bp"
    using P by (simp add: pow2_nat del: of_int_power)
  have q_lo: "pow2 (bq - 1) \<le> of_int q"
    using Q by (simp add: pow2_nat del: of_int_power)
  have q_hi: "of_int q < pow2 bq"
    using Q by (simp add: pow2_nat del: of_int_power)
  have qr: "(0::rat) < of_int q" using qpos by simp
  have hi: "a < pow2 (bp - bq + 1)"
  proof -
    have "of_int p < pow2 (bp - bq + 1) * pow2 (bq - 1)"
      using p_hi pow2_add[of "bp - bq + 1" "bq - 1"] by simp
    also have "\<dots> \<le> pow2 (bp - bq + 1) * of_int q"
      using q_lo pow2_pos[of "bp - bq + 1"] by simp
    finally show ?thesis using qr by (simp add: a pos_divide_less_eq)
  qed
  have lo: "pow2 (bp - bq - 1) \<le> a"
  proof -
    have "pow2 (bp - bq - 1) * of_int q \<le> pow2 (bp - bq - 1) * pow2 bq"
      using q_hi pow2_pos[of "bp - bq - 1"] by simp
    also have "\<dots> = pow2 (bp - 1)"
      using pow2_add[of "bp - bq - 1" bq] by simp
    also have "\<dots> \<le> of_int p" using p_lo .
    finally show ?thesis using qr by (simp add: a pos_le_divide_eq)
  qed
  show ?thesis
    using hi lo by (auto simp: exponentOf_def pq Let_def bp_def[symmetric] bq_def[symmetric])
qed


lemma pow2_strict_mono: "a < b \<Longrightarrow> pow2 a < pow2 b"
  by (simp add: pow2_powi power_int_strict_increasing)

lemma pow2_0: "pow2 0 = 1"
  by (simp add: pow2_def)

lemma pow2_cancel: "pow2 (- e) * pow2 e = 1"
  using pow2_add[of "- e" e] by (simp add: pow2_0)

lemma roundHalfEven_int: "roundHalfEven (of_int k) = k"
  by (simp add: roundHalfEven_def)

lemma roundHalfEven_ge1: "1 \<le> x \<Longrightarrow> 1 \<le> roundHalfEven x"
proof -
  assume "1 \<le> x"
  then have "1 \<le> \<lfloor>x\<rfloor>" by linarith
  then show ?thesis by (auto simp: roundHalfEven_def Let_def)
qed

lemma toDouble_minus: "toDouble (- r) = negate (toDouble r)"
  by (auto simp: toDouble_def Let_def negate_def)

lemma toDouble_zero: "toDouble 0 = Finite 0"
  by (simp add: toDouble_def)

lemma toDouble_pos_int:
  assumes "0 < n" and "n \<le> 2 ^ 53"
  shows "toDouble (of_int n) = Finite (of_int n)"
proof -
  define a :: rat where "a = of_int n"
  have apos: "0 < a" using assms(1) by (simp add: a_def)
  have a1: "1 \<le> a" using assms(1) by (simp add: a_def)
  have a53: "a \<le> pow2 53" using assms(2) by (simp add: a_def pow2_nat del: of_int_power) 
  define e where "e = exponentOf a"
  have eb: "pow2 e \<le> a \<and> a < pow2 (e + 1)" using exponentOf_bounds[OF apos] by (simp add: e_def)
  have e0: "0 \<le> e"
  proof (rule ccontr)
    assume "\<not> 0 \<le> e"
    then have "pow2 (e + 1) \<le> pow2 0" by (intro pow2_mono) simp
    with eb a1 show False by (simp add: pow2_0)
  qed
  have e53: "e \<le> 53"
  proof (rule ccontr)
    assume "\<not> e \<le> 53"
    then have "pow2 53 < pow2 e" by (intro pow2_strict_mono) simp
    with eb a53 show False by simp
  qed
  define q where "q = max e (- 1022) - 52"
  have q: "q = e - 52" using e0 by (simp add: q_def)
  have ex: "\<exists>k. a / pow2 q = of_int k"
  proof (cases "e \<le> 52")
    case True
    then have nq: "0 \<le> - q" by (simp add: q)
    have "a / pow2 q = a * pow2 (- q)"
      using pow2_cancel[of q] pow2_pos[of q] by (simp add: field_simps)
    also have "\<dots> = of_int (n * 2 ^ nat (- q))"
      using nq by (simp add: a_def pow2_nat)
    finally show ?thesis by blast
  next
    case False
    with e53 have e: "e = 53" by simp
    with eb a53 have "a = pow2 53" by simp
    then have "a / pow2 q = of_int (2 ^ 52)" by (simp add: q e pow2_def)
    then show ?thesis by blast
  qed
  then obtain k where k: "a / pow2 q = of_int k" by blast
  have v: "of_int k * pow2 q = a" using k pow2_pos[of q] by (simp add: field_simps)
  have nz: "(of_int n :: rat) \<noteq> 0" using assms(1) by simp
  have ab: "\<bar>of_int n :: rat\<bar> = a" using assms(1) by (simp add: a_def)
  have nn: "\<not> (of_int n :: rat) < 0" using assms(1) by simp
  have qs: "\<not> 971 \<le> q" using e53 by (simp add: q)
  show ?thesis
    unfolding toDouble_def Let_def ab
    using nz nn qs k v roundHalfEven_int
    by (simp add: q_def[symmetric] e_def[symmetric] a_def[symmetric])
qed

lemma toDouble_int:
  assumes "\<bar>n\<bar> \<le> 2 ^ 53"
  shows "toDouble (of_int n) = Finite (of_int n)"
proof (cases "0 < n")
  case True
  then show ?thesis using assms toDouble_pos_int by simp
next
  case False
  show ?thesis
  proof (cases "n = 0")
    case True
    then show ?thesis by (simp add: toDouble_zero)
  next
    case False
    with \<open>\<not> 0 < n\<close> have "0 < - n" and "- n \<le> 2 ^ 53" using assms by simp_all
    then have "toDouble (of_int (- n)) = Finite (of_int (- n))" by (rule toDouble_pos_int)
    then have "negate (toDouble (of_int n)) = Finite (- of_int n)"
      using toDouble_minus[of "of_int n"] by simp
    then show ?thesis by (cases "toDouble (of_int n)") (simp_all add: negate_def)
  qed
qed

text \<open>Every finite result lies on the grid of the multiples of \<open>2^-1074\<close>.\<close>

lemma toDouble_grid:
  assumes "toDouble r = Finite v"
  shows "\<exists>k. v = of_int k * pow2 (- 1074)"
proof (cases "r = 0")
  case True
  with assms have "v = 0" by (simp add: toDouble_zero)
  then show ?thesis by (intro exI[of _ 0]) simp
next
  case False
  define q where "q = max (exponentOf \<bar>r\<bar>) (- 1022) - 52"
  define m where "m = roundHalfEven (\<bar>r\<bar> / pow2 q)"
  have qge: "0 \<le> q + 1074" by (simp add: q_def)
  have pq: "pow2 q = of_int (2 ^ nat (q + 1074)) * pow2 (- 1074)"
    using pow2_add[of "q + 1074" "- 1074"] qge by (simp add: pow2_nat)
  have td: "toDouble r =
      (if 971 \<le> q \<and> 2 ^ 53 \<le> m * 2 ^ nat (q - 971)
       then (if r < 0 then NegInfinity else PosInfinity)
       else Finite (if r < 0 then - (of_int m * pow2 q) else of_int m * pow2 q))"
    using False by (simp only: toDouble_def Let_def q_def m_def if_False)
  have "v = of_int m * pow2 q \<or> v = - (of_int m * pow2 q)"
    using assms unfolding td by (auto split: if_splits)
  then show ?thesis
  proof
    assume "v = of_int m * pow2 q"
    then have "v = of_int (m * 2 ^ nat (q + 1074)) * pow2 (- 1074)" by (simp add: pq)
    then show ?thesis by blast
  next
    assume "v = - (of_int m * pow2 q)"
    then have "v = of_int (- (m * 2 ^ nat (q + 1074))) * pow2 (- 1074)" by (simp add: pq)
    then show ?thesis by blast
  qed
qed

text \<open>A positive value of at least \<open>2^-1074\<close> rounds to a positive result.\<close>

lemma toDouble_positive:
  assumes "pow2 (- 1074) \<le> r"
  shows "jsLess (Finite 0) (toDouble r) \<and> \<not> jsLess (toDouble r) (Finite 0)"
proof -
  have rpos: "0 < r" using assms pow2_pos[of "- 1074"] by linarith
  define e where "e = exponentOf \<bar>r\<bar>"
  define q where "q = max e (- 1022) - 52"
  define m where "m = roundHalfEven (\<bar>r\<bar> / pow2 q)"
  have ab: "\<bar>r\<bar> = r" using rpos by simp
  have eb: "pow2 e \<le> r" using exponentOf_bounds[of r] rpos by (simp add: e_def ab)
  have "pow2 q \<le> r"
  proof (cases "- 1022 \<le> e")
    case True
    then have "q = e - 52" by (simp add: q_def)
    then have "pow2 q \<le> pow2 e" by (intro pow2_mono) simp
    with eb show ?thesis by simp
  next
    case False
    then have "q = - 1074" by (simp add: q_def)
    with assms show ?thesis by simp
  qed
  then have "1 \<le> r / pow2 q" using pow2_pos[of q] by (simp add: pos_le_divide_eq)
  then have m1: "1 \<le> m" using roundHalfEven_ge1 by (simp add: m_def ab)
  have vpos: "(0::rat) < of_int m * pow2 q" using m1 pow2_pos[of q] by simp
  have nz: "r \<noteq> 0" and nn: "\<not> r < 0" using rpos by simp_all
  have td: "toDouble r =
      (if 971 \<le> q \<and> 2 ^ 53 \<le> m * 2 ^ nat (q - 971)
       then (if r < 0 then NegInfinity else PosInfinity)
       else Finite (if r < 0 then - (of_int m * pow2 q) else of_int m * pow2 q))"
    using nz by (simp only: toDouble_def Let_def q_def m_def e_def if_False)
  show ?thesis unfolding td using vpos nn by simp
qed

lemma double_difference:
  assumes "isDouble x" and "isDouble y"
  shows "jsLess (toDouble (x - y)) (Finite 0) = (x < y)"
    and "jsLess (Finite 0) (toDouble (x - y)) = (y < x)"
proof -
  define g where "g = pow2 (- 1074)"
  have gpos: "0 < g" by (simp add: g_def pow2_pos)
  obtain kx where kx: "x = of_int kx * g"
    using toDouble_grid[of x x] assms(1) by (auto simp: isDouble_def g_def)
  obtain ky where ky: "y = of_int ky * g"
    using toDouble_grid[of y y] assms(2) by (auto simp: isDouble_def g_def)
  have step: "\<And>a b ka kb. a = of_int ka * g \<Longrightarrow> b = of_int kb * g \<Longrightarrow> a < b \<Longrightarrow> g \<le> b - a"
  proof -
    fix a b :: rat and ka kb :: int
    assume a: "a = of_int ka * g" and b: "b = of_int kb * g" and lt: "a < b"
    have "ka < kb" using lt gpos by (simp add: a b)
    then have "(1::rat) \<le> of_int (kb - ka)" by simp
    then have "g \<le> of_int (kb - ka) * g" using gpos by simp
    then show "g \<le> b - a" by (simp add: a b algebra_simps)
  qed
  have lt: "x < y \<Longrightarrow> jsLess (toDouble (x - y)) (Finite 0) \<and> \<not> jsLess (Finite 0) (toDouble (x - y))"
  proof -
    assume "x < y"
    then have "g \<le> y - x" using step[OF kx ky] by simp
    then have p: "jsLess (Finite 0) (toDouble (y - x)) \<and> \<not> jsLess (toDouble (y - x)) (Finite 0)"
      using toDouble_positive[of "y - x"] by (simp add: g_def)
    have "toDouble (x - y) = negate (toDouble (y - x))"
      using toDouble_minus[of "y - x"] by simp
    with p show ?thesis by (cases "toDouble (y - x)") (simp_all add: negate_def)
  qed
  have gt: "y < x \<Longrightarrow> jsLess (Finite 0) (toDouble (x - y)) \<and> \<not> jsLess (toDouble (x - y)) (Finite 0)"
  proof -
    assume "y < x"
    then have "g \<le> x - y" using step[OF ky kx] by simp
    then show ?thesis using toDouble_positive[of "x - y"] by (simp add: g_def)
  qed
  have eq: "x = y \<Longrightarrow> \<not> jsLess (Finite 0) (toDouble (x - y)) \<and> \<not> jsLess (toDouble (x - y)) (Finite 0)"
    by (simp add: toDouble_zero)
  show "jsLess (toDouble (x - y)) (Finite 0) = (x < y)"
    using lt gt eq by (cases x y rule: linorder_cases) auto
  show "jsLess (Finite 0) (toDouble (x - y)) = (y < x)"
    using lt gt eq by (cases x y rule: linorder_cases) auto
qed

section \<open>Properties of the list handler\<close>


text \<open>A limit that parses to a number is clamped, and so is a page.\<close>

lemma limitNum_clamped:
  assumes "parseLimit q \<noteq> NaN"
  shows "limitNum q \<noteq> NaN \<and> \<not> jsLess (limitNum q) (Finite 1) \<and> \<not> jsLess (Finite 100) (limitNum q)"
  using assms
  by (cases "parseLimit q") (auto simp: limitNum_def mathMin_def mathMax_def)

lemma pageNum_clamped:
  assumes "parsePage q \<noteq> NaN"
  shows "pageNum q \<noteq> NaN \<and> \<not> jsLess (pageNum q) (Finite 1)"
  using assms
  by (cases "parsePage q") (auto simp: pageNum_def mathMax_def)

text \<open>
  C3 fails on a parameter that does not start with a number. The handler writes the
  clamp \<open>Math.min(100, Math.max(1, parseInt(limit)))\<close>, but \<open>parseInt\<close> of \<open>abc\<close> is
  \<open>NaN\<close>, which \<open>Math.max\<close> and \<open>Math.min\<close> hand through: for \<open>?limit=abc\<close> the
  effective limit and the skip offset are \<open>NaN\<close>, not a number between 1 and 100, and
  both routers call the store with them. The same holds for the page.
\<close>

theorem limit_nan_not_clamped:
  "parseLimit [(''limit'', QStr ''abc'')] = NaN
   \<and> limitNum [(''limit'', QStr ''abc'')] = NaN
   \<and> skip [(''limit'', QStr ''abc'')] = NaN
   \<and> pageNum [(''page'', QStr ''abc'')] = NaN
   \<and> skip [(''page'', QStr ''abc'')] = NaN
   \<and> snd (listHandler TS sampleWorld noOptions
             \<lparr>query = [(''limit'', QStr ''abc'')], params_id = [], body = None, files = None\<rparr>)
       = [Find [] [] ''-createdAt'' NaN NaN, CountDocuments []]
   \<and> snd (listHandler JS sampleWorld noOptions
             \<lparr>query = [(''limit'', QStr ''abc'')], params_id = [], body = None, files = None\<rparr>)
       = [Find [] [] ''-createdAt'' NaN NaN, CountDocuments []]"
proof -
  define q where "q = [(''limit'', QStr ''abc'')]"
  have pl: "parseLimit q = NaN" unfolding q_def by code_simp
  have l: "limitNum q = NaN" unfolding q_def by code_simp
  have sk: "skip q = NaN" unfolding q_def by code_simp
  have p: "pageNum [(''page'', QStr ''abc'')] = NaN" by code_simp
  have sp: "skip [(''page'', QStr ''abc'')] = NaN" by code_simp
  have so: "sortOf q = ''-createdAt''" unfolding q_def by code_simp
  have cq: "\<And>v. compileQuery v noOptions q = Inr []"
  proof -
    fix v show "compileQuery v noOptions q = Inr []"
      unfolding q_def by (cases v) (code_simp, code_simp)
  qed
  have sf: "\<And>v. selectFields v q = Inr []"
    by (simp add: selectFields_def q_def)
  have h: "\<And>v. snd (listHandler v sampleWorld noOptions
                       \<lparr>query = q, params_id = [], body = None, files = None\<rparr>)
            = [Find [] [] ''-createdAt'' NaN NaN, CountDocuments []]"
    by (simp add: listHandler_def Let_def cq sf sk so l sampleWorld_def)
  show ?thesis using pl l sk p sp h[of TS] h[of JS] unfolding q_def by simp
qed



section \<open>Accumulation of operator clauses\<close>


















section \<open>Properties of the file validation\<close>























section \<open>Properties of the mutation handlers\<close>

lemma hasBody_js: "\<not> hasBody req \<Longrightarrow> noBody_js req"
  by (auto simp: hasBody_def bodyOf_def noBody_js_def split: option.splits)

text \<open>
  C8. A create, replace or partial-update request with an empty body and no uploaded
  files is answered with status 400 and the message that the body cannot be empty, in
  both routers, and the handler makes no call to the document store and none to the blob
  store.
\<close>

theorem empty_body_rejected:
  assumes "\<not> hasBody req" and "\<not> hasUploadedFiles req"
  shows "postHandler w rn opts req = (Json 400 emptyBody, [])
       \<and> putHandler w rn opts req = (Json 400 emptyBody, [])
       \<and> patchHandler w rn opts req = (Json 400 emptyBody, [])
       \<and> postHandler_js w req = (Json 400 emptyBody, [])
       \<and> putHandler_js w rn req = (Json 400 emptyBody, [])
       \<and> patchHandler_js w rn req = (Json 400 emptyBody, [])"
  using assms hasBody_js[OF assms(1)]
  by (simp add: postHandler_def putHandler_def patchHandler_def postHandler_js_def
        putHandler_js_def patchHandler_js_def updateHandler_js_def Let_def)

theorem empty_body_rejected_witness:
  "\<not> hasBody \<lparr>query = [], params_id = ''42'', body = Some [], files = None\<rparr>
   \<and> \<not> hasUploadedFiles \<lparr>query = [], params_id = ''42'', body = Some [], files = None\<rparr>
   \<and> postHandler sampleWorld ''students'' noOptions
        \<lparr>query = [], params_id = ''42'', body = Some [], files = None\<rparr>
       = (Json 400 (ErrorBody ''Request body cannot be empty''), [])
   \<and> patchHandler_js sampleWorld ''students''
        \<lparr>query = [], params_id = ''42'', body = Some [], files = None\<rparr>
       = (Json 400 (ErrorBody ''Request body cannot be empty''), [])"
proof -
  define rq where "rq = \<lparr>query = [], params_id = ''42'', body = Some [], files = None\<rparr>"
  have h1: "\<not> hasBody rq" by (simp add: rq_def hasBody_def bodyOf_def)
  have h2: "\<not> hasUploadedFiles rq" by (simp add: rq_def hasUploadedFiles_def)
  from empty_body_rejected[OF h1 h2, of sampleWorld "''students''" noOptions] h1 h2
  show ?thesis unfolding rq_def emptyBody_def by simp
qed

lemma setProp_fresh2: "k \<notin> keys n \<Longrightarrow> setProp k w n = n @ [(k, w)]"
  by (induction n) (auto simp: keys_def)

lemma uploadLoop_answers:
  assumes "uploadLoop w fs rn did tok ffs urls0 tr0 = (Inr urls, tr)"
    and "distinct (map fieldName ffs)"
    and "\<forall>ff\<in>set ffs. fieldName ff \<notin> keys urls0"
  shows "\<exists>puts. tr = tr0 @ puts
           \<and> map snd urls = map snd urls0 @ putAnswers w tr0 puts
           \<and> (\<forall>c\<in>set puts. \<exists>p b. c = BlobPut p b tok)"
  using assms
proof (induction ffs arbitrary: urls0 tr0)
  case Nil
  then show ?case by simp
next
  case (Cons ff ffs)
  show ?case
  proof (cases "uploadedFor fs ff")
    case None
    with Cons.prems have "uploadLoop w fs rn did tok ffs urls0 tr0 = (Inr urls, tr)" by simp
    from Cons.IH[OF this] Cons.prems show ?thesis by simp
  next
    case (Some f)
    define blobPath where "blobPath = rn @ ''/'' @ did @ ''/'' @ fieldName ff @ ''-''
                            @ showNat (dateNow w tr0) @ extname (originalname f)"
    define c where "c = BlobPut blobPath (buffer f) tok"
    from Cons.prems(1) Some obtain url where
      u: "blobPut w tr0 blobPath (buffer f) = Inr url"
      and r: "uploadLoop w fs rn did tok ffs (setProp (fieldName ff) url urls0) (tr0 @ [c]) = (Inr urls, tr)"
      by (auto simp: Let_def blobPath_def c_def split: sum.splits)
    from Cons.prems(3) have fr: "setProp (fieldName ff) url urls0 = urls0 @ [(fieldName ff, url)]"
      by (simp add: setProp_fresh2)
    have k: "\<forall>g\<in>set ffs. fieldName g \<notin> keys (setProp (fieldName ff) url urls0)"
    proof
      fix g assume g: "g \<in> set ffs"
      with Cons.prems(2) have "fieldName g \<noteq> fieldName ff" by (metis distinct.simps(2) image_eqI list.simps(9) set_map)
      moreover from g Cons.prems(3) have "fieldName g \<notin> keys urls0" by simp
      ultimately show "fieldName g \<notin> keys (setProp (fieldName ff) url urls0)"
        by (simp add: keys_setProp)
    qed
    from Cons.prems(2) have d: "distinct (map fieldName ffs)" by simp
    from Cons.IH[OF r d k] obtain puts where
      p: "tr = (tr0 @ [c]) @ puts"
         "map snd urls = map snd (setProp (fieldName ff) url urls0) @ putAnswers w (tr0 @ [c]) puts"
         "\<forall>x\<in>set puts. \<exists>p b. x = BlobPut p b tok"
      by blast
    have "putAnswers w tr0 (c # puts) = url # putAnswers w (tr0 @ [c]) puts"
      by (simp add: c_def u)
    with p fr have "tr = tr0 @ (c # puts)
           \<and> map snd urls = map snd urls0 @ putAnswers w tr0 (c # puts)
           \<and> (\<forall>x\<in>set (c # puts). \<exists>p b. x = BlobPut p b tok)"
      by (auto simp: c_def)
    then show ?thesis by blast
  qed
qed

text \<open>
  C6. Take a create request that passes the empty-body guard and the file validation,
  on a resource with file fields of distinct names and a blob token. When every upload
  succeeds and \<open>Model.create\<close> then fails, the handler makes, after the uploads and the
  failed \<open>create\<close>, one delete call for each URL the blob store returned for the
  uploads of this request, for exactly these URLs and in their order, and only then
  answers with the mapped error.
\<close>

theorem create_rollback:
  assumes "hasBody req \<or> hasUploadedFiles req" and "hasFiles opts"
    and "distinct (map fieldName (fileFields opts))"
    and "validateFiles (files req) (fileFields opts) True = []"
    and "uploadFiles w (files req) (fileFields opts) rn (newObjectId w []) (the (blobToken opts)) []
           = (Inr urls, tr)"
    and "dbCreate w tr (assignUrls (setProp ''_id'' (VObjectId (newObjectId w [])) (bodyOf req)) urls)
           = Inl e"
  shows "postHandler w rn opts req
           = (catchCreate e,
              tr @ Create (assignUrls (setProp ''_id'' (VObjectId (newObjectId w [])) (bodyOf req)) urls)
                 # map (\<lambda>url. BlobDel url (the (blobToken opts))) (putAnswers w [] tr))
       \<and> map snd urls = putAnswers w [] tr
       \<and> (\<forall>c\<in>set tr. \<exists>p b. c = BlobPut p b (the (blobToken opts)))"
proof -
  have "\<forall>ff\<in>set (fileFields opts). fieldName ff \<notin> keys ([] :: (string \<times> string) list)"
    by (simp add: keys_def)
  from uploadLoop_answers[OF assms(5)[unfolded uploadFiles_def] assms(3) this]
  have a: "map snd urls = putAnswers w [] tr"
    and b: "\<forall>c\<in>set tr. \<exists>p b. c = BlobPut p b (the (blobToken opts))"
    by auto
  have "postHandler w rn opts req
           = (catchCreate e,
              tr @ Create (assignUrls (setProp ''_id'' (VObjectId (newObjectId w [])) (bodyOf req)) urls)
                 # map (\<lambda>url. BlobDel url (the (blobToken opts))) (map snd urls))"
    using assms(1,2,4,5,6)
    by (auto simp: postHandler_def Let_def persistCreate_def deleteBlobs_def)
  with a b show ?thesis by simp
qed

theorem create_rollback_witness:
  "postHandler failingWorld ''students''
     \<lparr>searchBy = [], filterBy = [],
      fileFields = [\<lparr>fieldName = ''idCard'', required = Some True, maxSize = Some 5,
                     accept = Some ''.pdf,.jpg,.png''\<rparr>],
      blobToken = Some ''tok''\<rparr>
     \<lparr>query = [], params_id = [], body = Some [(''name'', VStr ''John'')],
      files = Some [(''idCard'', [\<lparr>fieldname = ''idCard'', originalname = ''card.pdf'',
                 encoding = ''7bit'', mimetype = ''application/pdf'', buffer = [37, 80, 68, 70],
                 file_size = 4\<rparr>])]\<rparr>
   = (Json 409 (ErrorBody ''Duplicate value for field \"email\"''),
      [BlobPut ''students/65f0c0ffee0123456789abcd/idCard-1700.pdf'' [37, 80, 68, 70] ''tok'',
       Create [(''name'', VStr ''John''), (''_id'', VObjectId ''65f0c0ffee0123456789abcd''),
               (''idCard'', VStr ''https://blob.example/students/65f0c0ffee0123456789abcd/idCard-1700.pdf'')],
       BlobDel ''https://blob.example/students/65f0c0ffee0123456789abcd/idCard-1700.pdf'' ''tok''])"
proof -
  define opts where "opts = \<lparr>searchBy = [], filterBy = [],
      fileFields = [\<lparr>fieldName = ''idCard'', required = Some True, maxSize = Some 5,
                     accept = Some ''.pdf,.jpg,.png''\<rparr>],
      blobToken = Some ''tok''\<rparr>"
  define rq where "rq = \<lparr>query = [], params_id = [], body = Some [(''name'', VStr ''John'')],
      files = Some [(''idCard'', [\<lparr>fieldname = ''idCard'', originalname = ''card.pdf'',
                 encoding = ''7bit'', mimetype = ''application/pdf'', buffer = [37, 80, 68, 70],
                 file_size = 4\<rparr>])]\<rparr>"
  define url where "url = ''https://blob.example/students/65f0c0ffee0123456789abcd/idCard-1700.pdf''"
  define tr where "tr = [BlobPut ''students/65f0c0ffee0123456789abcd/idCard-1700.pdf''
                           [37, 80, 68, 70] ''tok'']"
  have id: "newObjectId failingWorld [] = ''65f0c0ffee0123456789abcd''"
    by (simp add: failingWorld_def sampleWorld_def)
  have tk: "the (blobToken opts) = ''tok''" by (simp add: opts_def)
  have h1: "hasBody rq \<or> hasUploadedFiles rq" by (simp add: rq_def hasBody_def bodyOf_def)
  have h2: "hasFiles opts" by (simp add: opts_def hasFiles_def)
  have h3: "distinct (map fieldName (fileFields opts))" by (simp add: opts_def)
  have h4: "validateFiles (files rq) (fileFields opts) True = []"
    unfolding rq_def opts_def by code_simp
  have h5: "uploadFiles failingWorld (files rq) (fileFields opts) ''students''
              (newObjectId failingWorld []) (the (blobToken opts)) []
            = (Inr [(''idCard'', url)], tr)"
    unfolding rq_def opts_def url_def tr_def by code_simp
  have h6: "dbCreate failingWorld tr
              (assignUrls (setProp ''_id'' (VObjectId (newObjectId failingWorld [])) (bodyOf rq))
                 [(''idCard'', url)])
            = Inl duplicateKeyError"
    by (simp add: failingWorld_def sampleWorld_def)
  have b: "setProp ''idCard'' (VStr url)
             (setProp ''_id'' (VObjectId (newObjectId failingWorld [])) (bodyOf rq))
           = [(''name'', VStr ''John''), (''_id'', VObjectId ''65f0c0ffee0123456789abcd''),
              (''idCard'', VStr url)]"
    by (simp add: id rq_def bodyOf_def)
  have c: "catchCreate duplicateKeyError
           = Json 409 (ErrorBody ''Duplicate value for field \"email\"'')"
    by (simp add: catchCreate_def duplicateKeyError_def duplicateMessage_def)
  have p: "putAnswers failingWorld [] tr = [url]"
    unfolding tr_def url_def by code_simp
  from create_rollback[OF h1 h2 h3 h4 h5 h6]
  have "postHandler failingWorld ''students'' opts rq
      = (Json 409 (ErrorBody ''Duplicate value for field \"email\"''),
         tr @ [Create [(''name'', VStr ''John''), (''_id'', VObjectId ''65f0c0ffee0123456789abcd''),
                       (''idCard'', VStr url)],
               BlobDel url ''tok''])"
    by (simp add: b c p tk)
  then show ?thesis unfolding opts_def rq_def url_def tr_def by simp
qed

section \<open>Properties of the distinct-values lookup\<close>

lemma mset_insertSorted: "mset (insertSorted cmp x ys) = add_mset x (mset ys)"
  by (induction ys) auto

lemma mset_foldl_insertSorted:
  "mset (foldl (\<lambda>acc x. insertSorted cmp x acc) acc xs) = mset acc + mset xs"
  by (induction xs arbitrary: acc) (auto simp: mset_insertSorted)

lemma mset_stableSort: "mset (stableSort cmp xs) = mset xs"
  by (simp add: stableSort_def mset_foldl_insertSorted)

lemma set_insertSorted: "set (insertSorted cmp x ys) = insert x (set ys)"
  by (induction ys) auto

lemma set_stableSort: "set (stableSort cmp xs) = set xs"
  using mset_stableSort[of cmp xs] by (metis set_mset_mset)

lemma insertSorted_map:
  assumes "\<And>a b. cmp' (f a) (f b) = cmp a b"
  shows "insertSorted cmp' (f x) (map f ys) = map f (insertSorted cmp x ys)"
  by (induction ys) (auto simp: assms)

lemma foldl_insertSorted_map:
  assumes "\<And>a b. cmp' (f a) (f b) = cmp a b"
  shows "foldl (\<lambda>acc x. insertSorted cmp' x acc) (map f acc) (map f xs)
           = map f (foldl (\<lambda>acc x. insertSorted cmp x acc) acc xs)"
proof (induction xs arbitrary: acc)
  case Nil
  show ?case by simp
next
  case (Cons x xs)
  have "insertSorted cmp' (f x) (map f acc) = map f (insertSorted cmp x acc)"
    using assms by (rule insertSorted_map)
  then show ?case using Cons.IH[of "insertSorted cmp x acc"] by simp
qed

lemma stableSort_map:
  assumes "\<And>a b. cmp' (f a) (f b) = cmp a b"
  shows "stableSort cmp' (map f xs) = map f (stableSort cmp xs)"
  using foldl_insertSorted_map[where cmp' = cmp' and f = f and cmp = cmp and acc = "[]" and xs = xs]
    assms by (simp add: stableSort_def)

text \<open>With a comparator that is consistent on the elements the insertion keeps the
  list sorted.\<close>

lemma sorted_insertSorted:
  assumes asym: "\<And>a b. a \<in> S \<Longrightarrow> b \<in> S \<Longrightarrow> jsLess (cmp a b) (Finite 0)
                  \<Longrightarrow> \<not> jsLess (cmp b a) (Finite 0)"
    and trans: "\<And>a b c. a \<in> S \<Longrightarrow> b \<in> S \<Longrightarrow> c \<in> S \<Longrightarrow> \<not> jsLess (cmp b a) (Finite 0)
                  \<Longrightarrow> \<not> jsLess (cmp c b) (Finite 0) \<Longrightarrow> \<not> jsLess (cmp c a) (Finite 0)"
    and "x \<in> S" and "set ys \<subseteq> S"
    and "sorted_wrt (\<lambda>a b. \<not> jsLess (cmp b a) (Finite 0)) ys"
  shows "sorted_wrt (\<lambda>a b. \<not> jsLess (cmp b a) (Finite 0)) (insertSorted cmp x ys)"
  using assms(4,5)
proof (induction ys)
  case Nil
  show ?case by simp
next
  case (Cons y ys)
  have yS: "y \<in> S" and ysS: "set ys \<subseteq> S" using Cons.prems(1) by simp_all
  show ?case
  proof (cases "jsLess (cmp x y) (Finite 0)")
    case True
    then have xy: "\<not> jsLess (cmp y x) (Finite 0)" using asym[OF assms(3) yS] by blast
    have "\<forall>z\<in>set ys. \<not> jsLess (cmp z x) (Finite 0)"
    proof
      fix z assume z: "z \<in> set ys"
      with ysS have zS: "z \<in> S" by blast
      from z Cons.prems(2) have "\<not> jsLess (cmp z y) (Finite 0)" by simp
      with xy show "\<not> jsLess (cmp z x) (Finite 0)" using trans[OF assms(3) yS zS] by blast
    qed
    with True xy Cons.prems(2) show ?thesis by simp
  next
    case False
    from Cons.prems(2) have "sorted_wrt (\<lambda>a b. \<not> jsLess (cmp b a) (Finite 0)) ys" by simp
    from Cons.IH[OF ysS this] False Cons.prems(2) show ?thesis
      by (auto simp: set_insertSorted)
  qed
qed

lemma sorted_foldl_insertSorted:
  assumes asym: "\<And>a b. a \<in> S \<Longrightarrow> b \<in> S \<Longrightarrow> jsLess (cmp a b) (Finite 0)
                  \<Longrightarrow> \<not> jsLess (cmp b a) (Finite 0)"
    and trans: "\<And>a b c. a \<in> S \<Longrightarrow> b \<in> S \<Longrightarrow> c \<in> S \<Longrightarrow> \<not> jsLess (cmp b a) (Finite 0)
                  \<Longrightarrow> \<not> jsLess (cmp c b) (Finite 0) \<Longrightarrow> \<not> jsLess (cmp c a) (Finite 0)"
    and "set acc \<subseteq> S" and "set xs \<subseteq> S"
    and "sorted_wrt (\<lambda>a b. \<not> jsLess (cmp b a) (Finite 0)) acc"
  shows "sorted_wrt (\<lambda>a b. \<not> jsLess (cmp b a) (Finite 0))
           (foldl (\<lambda>acc x. insertSorted cmp x acc) acc xs)"
  using assms(3,4,5)
proof (induction xs arbitrary: acc)
  case Nil
  then show ?case by simp
next
  case (Cons x xs)
  have xS: "x \<in> S" and xsS: "set xs \<subseteq> S" using Cons.prems(2) by simp_all
  have s: "sorted_wrt (\<lambda>a b. \<not> jsLess (cmp b a) (Finite 0)) (insertSorted cmp x acc)"
    using asym trans xS Cons.prems(1) Cons.prems(3) by (rule sorted_insertSorted)
  have i: "set (insertSorted cmp x acc) \<subseteq> S"
    using xS Cons.prems(1) by (simp add: set_insertSorted)
  from Cons.IH[OF i xsS s] show ?case by simp
qed

lemma sorted_stableSort:
  assumes "\<And>a b. a \<in> set xs \<Longrightarrow> b \<in> set xs \<Longrightarrow> jsLess (cmp a b) (Finite 0)
                  \<Longrightarrow> \<not> jsLess (cmp b a) (Finite 0)"
    and "\<And>a b c. a \<in> set xs \<Longrightarrow> b \<in> set xs \<Longrightarrow> c \<in> set xs \<Longrightarrow> \<not> jsLess (cmp b a) (Finite 0)
                  \<Longrightarrow> \<not> jsLess (cmp c b) (Finite 0) \<Longrightarrow> \<not> jsLess (cmp c a) (Finite 0)"
  shows "sorted_wrt (\<lambda>a b. \<not> jsLess (cmp b a) (Finite 0)) (stableSort cmp xs)"
  unfolding stableSort_def
  by (rule sorted_foldl_insertSorted[where S = "set xs", OF assms]) simp_all

text \<open>When no element precedes another one, the sort changes nothing.\<close>

lemma insertSorted_last:
  "\<forall>y\<in>set ys. \<not> jsLess (cmp x y) (Finite 0) \<Longrightarrow> insertSorted cmp x ys = ys @ [x]"
  by (induction ys) auto

lemma foldl_insertSorted_id:
  "\<forall>a\<in>set acc \<union> set xs. \<forall>b\<in>set acc \<union> set xs. \<not> jsLess (cmp a b) (Finite 0)
     \<Longrightarrow> foldl (\<lambda>acc x. insertSorted cmp x acc) acc xs = acc @ xs"
proof (induction xs arbitrary: acc)
  case Nil
  show ?case by simp
next
  case (Cons x xs)
  from Cons.prems have "insertSorted cmp x acc = acc @ [x]"
    by (intro insertSorted_last) auto
  moreover from Cons.prems
  have "\<forall>a\<in>set (acc @ [x]) \<union> set xs. \<forall>b\<in>set (acc @ [x]) \<union> set xs. \<not> jsLess (cmp a b) (Finite 0)"
    by auto
  ultimately show ?case using Cons.IH[of "acc @ [x]"] by simp
qed

lemma stableSort_id:
  "\<forall>a\<in>set xs. \<forall>b\<in>set xs. \<not> jsLess (cmp a b) (Finite 0) \<Longrightarrow> stableSort cmp xs = xs"
  using foldl_insertSorted_id[of "[]" xs cmp] by (simp add: stableSort_def)

text \<open>The stable sort meets the contract.\<close>

lemma stableSort_contract: "sortContract stableSort"
  by (simp add: sortContract_def mset_stableSort)

text \<open>The three kinds of lists on which the comparator of the handler is consistent.\<close>

lemma stableSort_strings:
  assumes "\<forall>a b. (lc a b < 0) = (0 < lc b a)"
    and "\<forall>a b c. lc a b \<le> 0 \<and> lc b c \<le> 0 \<longrightarrow> lc a c \<le> 0"
  shows "consistentOn (compareValues lc) (set (map VStr ss))"
    and "\<exists>ts. stableSort (compareValues lc) (map VStr ss) = map VStr ts \<and> mset ts = mset ss
           \<and> sorted_wrt (\<lambda>a b. lc a b \<le> 0) ts"
proof -
  define cmp :: "string \<Rightarrow> string \<Rightarrow> jsnum" where "cmp = (\<lambda>a b. Finite (of_int (lc a b)))"
  have lt: "\<And>a b. jsLess (cmp a b) (Finite 0) = (lc a b < 0)" by (simp add: cmp_def)
  have gt: "\<And>a b. jsLess (Finite 0) (cmp a b) = (0 < lc a b)" by (simp add: cmp_def)
  have le: "\<And>a b. (\<not> jsLess (cmp b a) (Finite 0)) = (lc a b \<le> 0)"
    using assms(1) by (simp add: lt) (metis not_less)
  have cv: "\<And>a b. compareValues lc (VStr a) (VStr b) = cmp a b"
    by (simp add: compareValues_def cmp_def)
  show "consistentOn (compareValues lc) (set (map VStr ss))"
    unfolding consistentOn_def
  proof (intro conjI ballI impI)
    fix a b assume "a \<in> set (map VStr ss)" "b \<in> set (map VStr ss)"
    then obtain s t where "a = VStr s" "b = VStr t" by auto
    then show "jsLess (compareValues lc a b) (Finite 0) = jsLess (Finite 0) (compareValues lc b a)"
      using assms(1) by (simp add: cv lt gt)
  next
    fix a b c
    assume "a \<in> set (map VStr ss)" "b \<in> set (map VStr ss)" "c \<in> set (map VStr ss)"
      and h: "\<not> jsLess (Finite 0) (compareValues lc a b) \<and> \<not> jsLess (Finite 0) (compareValues lc b c)"
    then obtain s t u where e: "a = VStr s" "b = VStr t" "c = VStr u" by auto
    from h e have "lc s t \<le> 0" "lc t u \<le> 0" by (simp_all add: cv gt)
    with assms(2) have "lc s u \<le> 0" by blast
    then show "\<not> jsLess (Finite 0) (compareValues lc a c)" using e by (simp add: cv gt)
  qed
  have m: "stableSort (compareValues lc) (map VStr ss) = map VStr (stableSort cmp ss)"
    by (rule stableSort_map) (simp add: cv)
  have "sorted_wrt (\<lambda>a b. \<not> jsLess (cmp b a) (Finite 0)) (stableSort cmp ss)"
  proof (rule sorted_stableSort)
    fix a b assume "jsLess (cmp a b) (Finite 0)"
    then have "lc a b < 0" using lt[of a b] by blast
    then have "\<not> lc b a < 0" using assms(1) by (metis less_asym)
    then show "\<not> jsLess (cmp b a) (Finite 0)" using lt[of b a] by blast
  next
    fix a b c assume "\<not> jsLess (cmp b a) (Finite 0)" "\<not> jsLess (cmp c b) (Finite 0)"
    then have "lc a b \<le> 0" "lc b c \<le> 0" using le[of b a] le[of c b] by blast+
    with assms(2) have "lc a c \<le> 0" by blast
    then show "\<not> jsLess (cmp c a) (Finite 0)" using le[of c a] by blast
  qed
  moreover have "(\<lambda>a b. \<not> jsLess (cmp b a) (Finite 0)) = (\<lambda>a b. lc a b \<le> 0)"
    using le by blast
  ultimately have "sorted_wrt (\<lambda>a b. lc a b \<le> 0) (stableSort cmp ss)" by simp
  with m mset_stableSort[of cmp ss]
  show "\<exists>ts. stableSort (compareValues lc) (map VStr ss) = map VStr ts \<and> mset ts = mset ss
           \<and> sorted_wrt (\<lambda>a b. lc a b \<le> 0) ts"
    by blast
qed

lemma stableSort_numbers:
  assumes "\<forall>r\<in>set rs. isDouble r"
  shows "consistentOn (compareValues lc) (set (map (\<lambda>r. VNum (Finite r)) rs))"
    and "stableSort (compareValues lc) (map (\<lambda>r. VNum (Finite r)) rs)
           = map (\<lambda>r. VNum (Finite r)) (sort rs)"
proof -
  define cmp :: "rat \<Rightarrow> rat \<Rightarrow> jsnum" where "cmp = (\<lambda>a b. toDouble (a - b))"
  have cv: "\<And>a b. compareValues lc (VNum (Finite a)) (VNum (Finite b)) = cmp a b"
    by (simp add: compareValues_def cmp_def)
  have lt: "\<And>a b. a \<in> set rs \<Longrightarrow> b \<in> set rs \<Longrightarrow> jsLess (cmp a b) (Finite 0) = (a < b)"
    using assms double_difference(1) by (simp add: cmp_def)
  have gt: "\<And>a b. a \<in> set rs \<Longrightarrow> b \<in> set rs \<Longrightarrow> jsLess (Finite 0) (cmp a b) = (b < a)"
    using assms double_difference(2) by (simp add: cmp_def)
  show "consistentOn (compareValues lc) (set (map (\<lambda>r. VNum (Finite r)) rs))"
    unfolding consistentOn_def
  proof (intro conjI ballI impI)
    fix a b
    assume "a \<in> set (map (\<lambda>r. VNum (Finite r)) rs)" "b \<in> set (map (\<lambda>r. VNum (Finite r)) rs)"
    then obtain s t where e: "a = VNum (Finite s)" "b = VNum (Finite t)" "s \<in> set rs" "t \<in> set rs"
      by auto
    then show "jsLess (compareValues lc a b) (Finite 0) = jsLess (Finite 0) (compareValues lc b a)"
      by (simp add: cv lt gt)
  next
    fix a b c
    assume "a \<in> set (map (\<lambda>r. VNum (Finite r)) rs)" "b \<in> set (map (\<lambda>r. VNum (Finite r)) rs)"
      "c \<in> set (map (\<lambda>r. VNum (Finite r)) rs)"
      and h: "\<not> jsLess (Finite 0) (compareValues lc a b) \<and> \<not> jsLess (Finite 0) (compareValues lc b c)"
    then obtain s t u where e: "a = VNum (Finite s)" "b = VNum (Finite t)" "c = VNum (Finite u)"
      "s \<in> set rs" "t \<in> set rs" "u \<in> set rs"
      by auto
    from h e have "\<not> t < s" "\<not> u < t" by (simp_all add: cv gt)
    then have "\<not> u < s" by simp
    then show "\<not> jsLess (Finite 0) (compareValues lc a c)" using e by (simp add: cv gt)
  qed
  have m: "stableSort (compareValues lc) (map (\<lambda>r. VNum (Finite r)) rs)
             = map (\<lambda>r. VNum (Finite r)) (stableSort cmp rs)"
    by (rule stableSort_map) (simp add: cv)
  have s0: "sorted_wrt (\<lambda>a b. \<not> jsLess (cmp b a) (Finite 0)) (stableSort cmp rs)"
  proof (rule sorted_stableSort)
    fix a b assume "a \<in> set rs" "b \<in> set rs" "jsLess (cmp a b) (Finite 0)"
    then show "\<not> jsLess (cmp b a) (Finite 0)" by (simp add: lt)
  next
    fix a b c
    assume "a \<in> set rs" "b \<in> set rs" "c \<in> set rs"
      "\<not> jsLess (cmp b a) (Finite 0)" "\<not> jsLess (cmp c b) (Finite 0)"
    then show "\<not> jsLess (cmp c a) (Finite 0)" by (simp add: lt)
  qed
  have "sorted_wrt (\<le>) (stableSort cmp rs)"
  proof (rule sorted_wrt_mono_rel[OF _ s0])
    fix a b assume "a \<in> set (stableSort cmp rs)" "b \<in> set (stableSort cmp rs)"
      and n: "\<not> jsLess (cmp b a) (Finite 0)"
    then have "a \<in> set rs" "b \<in> set rs" by (simp_all add: set_stableSort)
    with n show "a \<le> b" by (simp add: lt)
  qed
  then have "sorted (stableSort cmp rs)" by simp
  with mset_stableSort[of cmp rs] have "sort rs = stableSort cmp rs"
    by (intro properties_for_sort) simp_all
  with m show "stableSort (compareValues lc) (map (\<lambda>r. VNum (Finite r)) rs)
                 = map (\<lambda>r. VNum (Finite r)) (sort rs)"
    by simp
qed

lemma stableSort_other:
  assumes "\<forall>v\<in>set vals. (\<forall>s. v \<noteq> VStr s) \<and> (\<forall>n. v \<noteq> VNum n)"
  shows "consistentOn (compareValues lc) (set vals)"
    and "stableSort (compareValues lc) vals = vals"
proof -
  have z: "\<And>a b. a \<in> set vals \<Longrightarrow> compareValues lc a b = Finite 0"
  proof -
    fix a b assume "a \<in> set vals"
    with assms have "(\<forall>s. a \<noteq> VStr s) \<and> (\<forall>n. a \<noteq> VNum n)" by blast
    then show "compareValues lc a b = Finite 0"
      by (cases a) (simp_all add: compareValues_def)
  qed
  show "consistentOn (compareValues lc) (set vals)"
    by (simp add: consistentOn_def z)
  show "stableSort (compareValues lc) vals = vals"
    by (rule stableSort_id) (simp add: z)
qed

lemma compareCodes_sym: "(compareCodes a b < 0) = (0 < compareCodes b a)"
  by (induction a b rule: compareCodes.induct) auto

lemma compareCodes_le:
  "compareCodes a b \<le> 0 \<Longrightarrow> compareCodes b c \<le> 0 \<Longrightarrow> compareCodes a c \<le> 0"
proof (induction a b arbitrary: c rule: compareCodes.induct)
  case 1
  then show ?case by simp
next
  case (2 y ys)
  then show ?case by (cases c) auto
next
  case (3 x xs)
  then show ?case by simp
next
  case (4 x xs y ys)
  define i :: nat where "i = of_char x"
  define j :: nat where "j = of_char y"
  from "4.prems"(1) have xy: "i < j \<or> (i = j \<and> compareCodes xs ys \<le> 0)"
    by (simp add: i_def j_def split: if_splits)
  show ?case
  proof (cases c)
    case Nil
    with "4.prems"(2) show ?thesis by simp
  next
    case (Cons z zs)
    define k :: nat where "k = of_char z"
    from "4.prems"(2) Cons have yz: "j < k \<or> (j = k \<and> compareCodes ys zs \<le> 0)"
      by (simp add: j_def k_def split: if_splits)
    show ?thesis
    proof (cases "i < k")
      case True
      then show ?thesis by (simp add: Cons i_def k_def)
    next
      case False
      with xy yz have e: "i = j" "j = k" "compareCodes xs ys \<le> 0" "compareCodes ys zs \<le> 0"
        by auto
      then have "compareCodes xs zs \<le> 0"
        using "4.IH"[of zs] by (simp add: i_def j_def)
      with e show ?thesis by (simp add: Cons i_def j_def k_def)
    qed
  qed
qed

text \<open>
  C9, as stated, fails on values of mixed types: the comparator still orders two strings
  (and two numbers) of a mixed list, so the stored order is not kept. On the list
  \<open>b\<close>, \<open>a\<close>, \<open>1\<close> the engine of Node finds \<open>a\<close> before \<open>b\<close>, reverses this
  descending run, and puts the number behind it, every comparison with the number
  yielding \<open>0\<close>.
\<close>

theorem mixed_values_reordered_counterexample:
  "dbDistinct mixedWorld [] ''tag'' = Inr [VStr ''b'', VStr ''a'', VNum (Finite 1)]
   \<and> filtersRoute mixedWorld ''items''
       \<lparr>searchBy = [], filterBy = [''tag''], fileFields = [], blobToken = None\<rparr> ''tag''
     = Some (Json 200 (FiltersBody ''items'' ''tag'' 3 [VStr ''a'', VStr ''b'', VNum (Finite 1)]),
             [Distinct ''tag''])"
proof -
  have s: "shortArraySort (compareValues compareCodes) [VStr ''b'', VStr ''a'', VNum (Finite 1)]
             = [VStr ''a'', VStr ''b'', VNum (Finite 1)]"
    by code_simp
  show ?thesis
    by (simp add: filtersRoute_def filtersHandler_def isFilterable_ts_def Let_def mixedWorld_def
          sampleWorld_def s)
qed

text \<open>
  C9, amended. The route exists only when \<open>filterBy\<close> is not empty. It answers 400 with
  the list of allowed fields for a field that is not in \<open>filterBy\<close>. For an allowed
  field it asks the store once and answers with the values the store returned,
  rearranged by the sort of the engine under the comparator of the handler, and their
  number. Given an engine whose sort meets the contract of the language: when all values
  are strings and the collation is a consistent order, they come back sorted by the
  collation; when all values are finite numbers, they come back in ascending order; when
  no value is a string or a number, the stored order is kept. On any other list the
  comparator is not consistent and the order is the engine's.
\<close>

theorem distinct_values_lookup:
  assumes "sortContract (engineSort w)"
  shows "(filterBy opts = [] \<longrightarrow> filtersRoute w rn opts field = None)
   \<and> (filterBy opts \<noteq> [] \<and> field \<notin> set (filterBy opts) \<longrightarrow>
        filtersRoute w rn opts field
          = Some (Json 400 (ErrorBody (notFilterableMessage field (filterBy opts))), []))
   \<and> (field \<in> set (filterBy opts) \<and> dbDistinct w [] field = Inr vals \<longrightarrow>
        filtersRoute w rn opts field
          = Some (Json 200 (FiltersBody rn field (length vals)
                              (engineSort w (compareValues (localeCompare w)) vals)),
                  [Distinct field])
        \<and> mset (engineSort w (compareValues (localeCompare w)) vals) = mset vals)
   \<and> ((\<forall>a b. (localeCompare w a b < 0) = (0 < localeCompare w b a))
        \<and> (\<forall>a b c. localeCompare w a b \<le> 0 \<and> localeCompare w b c \<le> 0
                      \<longrightarrow> localeCompare w a c \<le> 0)
        \<longrightarrow> (\<exists>ts. engineSort w (compareValues (localeCompare w)) (map VStr ss) = map VStr ts
                  \<and> mset ts = mset ss
                  \<and> sorted_wrt (\<lambda>a b. localeCompare w a b \<le> 0) ts))
   \<and> ((\<forall>r\<in>set rs. isDouble r)
        \<longrightarrow> engineSort w (compareValues (localeCompare w)) (map (\<lambda>r. VNum (Finite r)) rs)
              = map (\<lambda>r. VNum (Finite r)) (sort rs))
   \<and> ((\<forall>x\<in>set xs. (\<forall>s. x \<noteq> VStr s) \<and> (\<forall>n. x \<noteq> VNum n))
        \<longrightarrow> engineSort w (compareValues (localeCompare w)) xs = xs)"
proof -
  define cmp where "cmp = compareValues (localeCompare w)"
  have perm: "\<And>ys. mset (engineSort w cmp ys) = mset ys"
    using assms by (simp add: sortContract_def)
  have cons: "\<And>ys. consistentOn cmp (set ys) \<Longrightarrow> engineSort w cmp ys = stableSort cmp ys"
    using assms by (simp add: sortContract_def)
  have a: "filterBy opts = [] \<longrightarrow> filtersRoute w rn opts field = None"
    by (simp add: filtersRoute_def)
  have b: "filterBy opts \<noteq> [] \<and> field \<notin> set (filterBy opts) \<longrightarrow>
        filtersRoute w rn opts field
          = Some (Json 400 (ErrorBody (notFilterableMessage field (filterBy opts))), [])"
    by (simp add: filtersRoute_def filtersHandler_def isFilterable_ts_def)
  have l: "length (engineSort w cmp vals) = length vals"
    using perm[of vals] by (metis size_mset)
  have c: "field \<in> set (filterBy opts) \<and> dbDistinct w [] field = Inr vals \<longrightarrow>
        filtersRoute w rn opts field
          = Some (Json 200 (FiltersBody rn field (length vals) (engineSort w cmp vals)),
                  [Distinct field])
        \<and> mset (engineSort w cmp vals) = mset vals"
    using l perm[of vals]
    by (auto simp: filtersRoute_def filtersHandler_def isFilterable_ts_def Let_def cmp_def)
  have d: "(\<forall>a b. (localeCompare w a b < 0) = (0 < localeCompare w b a))
        \<and> (\<forall>a b c. localeCompare w a b \<le> 0 \<and> localeCompare w b c \<le> 0
                      \<longrightarrow> localeCompare w a c \<le> 0)
        \<longrightarrow> (\<exists>ts. engineSort w cmp (map VStr ss) = map VStr ts
                  \<and> mset ts = mset ss
                  \<and> sorted_wrt (\<lambda>a b. localeCompare w a b \<le> 0) ts)"
  proof
    assume h: "(\<forall>a b. (localeCompare w a b < 0) = (0 < localeCompare w b a))
        \<and> (\<forall>a b c. localeCompare w a b \<le> 0 \<and> localeCompare w b c \<le> 0
                      \<longrightarrow> localeCompare w a c \<le> 0)"
    then have h1: "\<forall>a b. (localeCompare w a b < 0) = (0 < localeCompare w b a)"
      and h2: "\<forall>a b c. localeCompare w a b \<le> 0 \<and> localeCompare w b c \<le> 0
                      \<longrightarrow> localeCompare w a c \<le> 0"
      by blast+
    have "engineSort w cmp (map VStr ss) = stableSort cmp (map VStr ss)"
      using stableSort_strings(1)[OF h1 h2, of ss] by (intro cons) (simp add: cmp_def)
    with stableSort_strings(2)[OF h1 h2, of ss]
    show "\<exists>ts. engineSort w cmp (map VStr ss) = map VStr ts
                  \<and> mset ts = mset ss
                  \<and> sorted_wrt (\<lambda>a b. localeCompare w a b \<le> 0) ts"
      by (simp add: cmp_def)
  qed
  have e: "(\<forall>r\<in>set rs. isDouble r)
        \<longrightarrow> engineSort w cmp (map (\<lambda>r. VNum (Finite r)) rs)
              = map (\<lambda>r. VNum (Finite r)) (sort rs)"
  proof
    assume h: "\<forall>r\<in>set rs. isDouble r"
    have "engineSort w cmp (map (\<lambda>r. VNum (Finite r)) rs)
            = stableSort cmp (map (\<lambda>r. VNum (Finite r)) rs)"
      using stableSort_numbers(1)[OF h, of "localeCompare w"] by (intro cons) (simp add: cmp_def)
    with stableSort_numbers(2)[OF h, of "localeCompare w"]
    show "engineSort w cmp (map (\<lambda>r. VNum (Finite r)) rs)
              = map (\<lambda>r. VNum (Finite r)) (sort rs)"
      by (simp add: cmp_def)
  qed
  have f: "(\<forall>x\<in>set xs. (\<forall>s. x \<noteq> VStr s) \<and> (\<forall>n. x \<noteq> VNum n))
        \<longrightarrow> engineSort w cmp xs = xs"
  proof
    assume h: "\<forall>x\<in>set xs. (\<forall>s. x \<noteq> VStr s) \<and> (\<forall>n. x \<noteq> VNum n)"
    have "engineSort w cmp xs = stableSort cmp xs"
      using stableSort_other(1)[OF h, of "localeCompare w"] by (intro cons) (simp add: cmp_def)
    with stableSort_other(2)[OF h, of "localeCompare w"]
    show "engineSort w cmp xs = xs" by (simp add: cmp_def)
  qed
  show ?thesis
    using a b c d e f unfolding cmp_def by (intro conjI) assumption+
qed

theorem distinct_values_lookup_witness:
  "sortContract (engineSort sampleWorld)
   \<and> filtersRoute sampleWorld ''students''
       \<lparr>searchBy = [], filterBy = [''grade''], fileFields = [], blobToken = None\<rparr> ''grade''
     = Some (Json 200 (FiltersBody ''students'' ''grade'' 3 [VStr ''A'', VStr ''B'', VStr ''C'']),
             [Distinct ''grade''])
   \<and> filtersRoute sampleWorld ''students''
       \<lparr>searchBy = [], filterBy = [''grade''], fileFields = [], blobToken = None\<rparr> ''email''
     = Some (Json 400 (ErrorBody
               ''Field \"email\" is not filterable. Allowed filter fields: grade''), [])
   \<and> filtersRoute sampleWorld ''students'' noOptions ''grade'' = None
   \<and> (\<exists>ts. engineSort sampleWorld (compareValues (localeCompare sampleWorld))
               (map VStr [''B'', ''A'', ''C'']) = map VStr ts
             \<and> mset ts = mset [''B'', ''A'', ''C'']
             \<and> sorted_wrt (\<lambda>a b. localeCompare sampleWorld a b \<le> 0) ts)
   \<and> filtersRoute numberWorld ''items''
       \<lparr>searchBy = [], filterBy = [''price''], fileFields = [], blobToken = None\<rparr> ''price''
     = Some (Json 200 (FiltersBody ''items'' ''price'' 3
                         [VNum (Finite 1), VNum (Finite 2), VNum (Finite 3)]),
             [Distinct ''price''])
   \<and> filtersRoute flagWorld ''items''
       \<lparr>searchBy = [], filterBy = [''done''], fileFields = [], blobToken = None\<rparr> ''done''
     = Some (Json 200 (FiltersBody ''items'' ''done'' 3 [VBool True, VNull, VBool False]),
             [Distinct ''done''])"
proof -
  define opts where
    "opts = \<lparr>searchBy = [], filterBy = [''grade''], fileFields = [], blobToken = None\<rparr>"
  define optsP where
    "optsP = \<lparr>searchBy = [], filterBy = [''price''], fileFields = [], blobToken = None\<rparr>"
  define optsD where
    "optsD = \<lparr>searchBy = [], filterBy = [''done''], fileFields = [], blobToken = None\<rparr>"
  define vals where "vals = [VStr ''B'', VStr ''A'', VStr ''C'']"
  define nums where "nums = [3, 1, 2 :: rat]"
  define others where "others = [VBool True, VNull, VBool False]"
  have es: "engineSort sampleWorld = stableSort" by (simp add: sampleWorld_def)
  have en: "engineSort numberWorld = stableSort" by (simp add: numberWorld_def sampleWorld_def)
  have ef: "engineSort flagWorld = stableSort" by (simp add: flagWorld_def sampleWorld_def)
  have k1: "sortContract (engineSort sampleWorld)" unfolding es by (rule stableSort_contract)
  have k2: "sortContract (engineSort numberWorld)" unfolding en by (rule stableSort_contract)
  have k3: "sortContract (engineSort flagWorld)" unfolding ef by (rule stableSort_contract)
  have lcw: "localeCompare sampleWorld = compareCodes" by (simp add: sampleWorld_def)
  note t1 = distinct_values_lookup[OF k1, where opts = opts and rn = "''students''"
      and field = "''grade''" and vals = vals and ss = "[''B'', ''A'', ''C'']"
      and rs = nums and xs = others]
  note t2 = distinct_values_lookup[OF k1, where opts = opts and rn = "''students''"
      and field = "''email''" and vals = vals and ss = "[''B'', ''A'', ''C'']"
      and rs = nums and xs = others]
  note t3 = distinct_values_lookup[OF k1, where opts = noOptions and rn = "''students''"
      and field = "''grade''" and vals = vals and ss = "[''B'', ''A'', ''C'']"
      and rs = nums and xs = others]
  note t4 = distinct_values_lookup[OF k2, where opts = optsP and rn = "''items''"
      and field = "''price''" and vals = "map (\<lambda>r. VNum (Finite r)) nums"
      and ss = "[''B'', ''A'', ''C'']" and rs = nums and xs = others]
  note t5 = distinct_values_lookup[OF k3, where opts = optsD and rn = "''items''"
      and field = "''done''" and vals = others and ss = "[''B'', ''A'', ''C'']"
      and rs = nums and xs = others]
  have sv: "stableSort (compareValues compareCodes) vals = [VStr ''A'', VStr ''B'', VStr ''C'']"
    unfolding vals_def by code_simp
  have h1: "''grade'' \<in> set (filterBy opts) \<and> dbDistinct sampleWorld [] ''grade'' = Inr vals"
    by (simp add: opts_def sampleWorld_def vals_def)
  have a0: "''grade'' \<in> set (filterBy opts) \<and> dbDistinct sampleWorld [] ''grade'' = Inr vals \<longrightarrow>
        filtersRoute sampleWorld ''students'' opts ''grade''
          = Some (Json 200 (FiltersBody ''students'' ''grade'' (length vals)
                              (engineSort sampleWorld (compareValues (localeCompare sampleWorld)) vals)),
                  [Distinct ''grade''])
        \<and> mset (engineSort sampleWorld (compareValues (localeCompare sampleWorld)) vals) = mset vals"
    using t1 by - (elim conjE, assumption)
  from a0 h1 have "filtersRoute sampleWorld ''students'' opts ''grade''
          = Some (Json 200 (FiltersBody ''students'' ''grade'' (length vals)
                              (engineSort sampleWorld (compareValues (localeCompare sampleWorld)) vals)),
                  [Distinct ''grade''])
        \<and> mset (engineSort sampleWorld (compareValues (localeCompare sampleWorld)) vals) = mset vals"
    by (rule mp)
  then have a: "filtersRoute sampleWorld ''students'' opts ''grade''
     = Some (Json 200 (FiltersBody ''students'' ''grade'' 3 [VStr ''A'', VStr ''B'', VStr ''C'']),
             [Distinct ''grade''])"
    by (simp add: lcw es sv) (simp add: vals_def)
  have h2: "filterBy opts \<noteq> [] \<and> ''email'' \<notin> set (filterBy opts)" by (simp add: opts_def)
  have b0: "filterBy opts \<noteq> [] \<and> ''email'' \<notin> set (filterBy opts) \<longrightarrow>
        filtersRoute sampleWorld ''students'' opts ''email''
          = Some (Json 400 (ErrorBody (notFilterableMessage ''email'' (filterBy opts))), [])"
    using t2 by - (elim conjE, assumption)
  from b0 h2 have "filtersRoute sampleWorld ''students'' opts ''email''
          = Some (Json 400 (ErrorBody (notFilterableMessage ''email'' (filterBy opts))), [])"
    by (rule mp)
  then have b: "filtersRoute sampleWorld ''students'' opts ''email''
     = Some (Json 400 (ErrorBody
               ''Field \"email\" is not filterable. Allowed filter fields: grade''), [])"
    by (simp add: opts_def notFilterableMessage_def)
  have h3: "filterBy noOptions = []" by (simp add: noOptions_def)
  have c0: "filterBy noOptions = [] \<longrightarrow> filtersRoute sampleWorld ''students'' noOptions ''grade'' = None"
    using t3 by - (elim conjE, assumption)
  from c0 h3 have c: "filtersRoute sampleWorld ''students'' noOptions ''grade'' = None"
    by (rule mp)
  have h4: "(\<forall>a b. (localeCompare sampleWorld a b < 0) = (0 < localeCompare sampleWorld b a))
            \<and> (\<forall>a b c. localeCompare sampleWorld a b \<le> 0 \<and> localeCompare sampleWorld b c \<le> 0
                          \<longrightarrow> localeCompare sampleWorld a c \<le> 0)"
    unfolding lcw using compareCodes_sym compareCodes_le by blast
  have d0: "(\<forall>a b. (localeCompare sampleWorld a b < 0) = (0 < localeCompare sampleWorld b a))
            \<and> (\<forall>a b c. localeCompare sampleWorld a b \<le> 0 \<and> localeCompare sampleWorld b c \<le> 0
                          \<longrightarrow> localeCompare sampleWorld a c \<le> 0)
        \<longrightarrow> (\<exists>ts. engineSort sampleWorld (compareValues (localeCompare sampleWorld))
                      (map VStr [''B'', ''A'', ''C'']) = map VStr ts
                  \<and> mset ts = mset [''B'', ''A'', ''C'']
                  \<and> sorted_wrt (\<lambda>a b. localeCompare sampleWorld a b \<le> 0) ts)"
    using t1 by - (elim conjE, assumption)
  from d0 h4 have d: "\<exists>ts. engineSort sampleWorld (compareValues (localeCompare sampleWorld))
                      (map VStr [''B'', ''A'', ''C'']) = map VStr ts
                  \<and> mset ts = mset [''B'', ''A'', ''C'']
                  \<and> sorted_wrt (\<lambda>a b. localeCompare sampleWorld a b \<le> 0) ts"
    by (rule mp)
  have d3: "isDouble 3" unfolding isDouble_def by code_simp
  have d1: "isDouble 1" unfolding isDouble_def by code_simp
  have d2: "isDouble 2" unfolding isDouble_def by code_simp
  have h5: "\<forall>r\<in>set nums. isDouble r" using d1 d2 d3 by (simp add: nums_def)
  have e0: "(\<forall>r\<in>set nums. isDouble r)
        \<longrightarrow> engineSort numberWorld (compareValues (localeCompare numberWorld))
               (map (\<lambda>r. VNum (Finite r)) nums)
              = map (\<lambda>r. VNum (Finite r)) (sort nums)"
    using t4 by - (elim conjE, assumption)
  from e0 h5 have e1: "engineSort numberWorld (compareValues (localeCompare numberWorld))
               (map (\<lambda>r. VNum (Finite r)) nums)
              = map (\<lambda>r. VNum (Finite r)) (sort nums)"
    by (rule mp)
  have srt: "sort nums = [1, 2, 3]" by (simp add: nums_def)
  have h6: "''price'' \<in> set (filterBy optsP)
            \<and> dbDistinct numberWorld [] ''price'' = Inr (map (\<lambda>r. VNum (Finite r)) nums)"
    by (simp add: optsP_def numberWorld_def nums_def)
  have e2: "''price'' \<in> set (filterBy optsP)
            \<and> dbDistinct numberWorld [] ''price'' = Inr (map (\<lambda>r. VNum (Finite r)) nums) \<longrightarrow>
        filtersRoute numberWorld ''items'' optsP ''price''
          = Some (Json 200 (FiltersBody ''items'' ''price'' (length (map (\<lambda>r. VNum (Finite r)) nums))
                              (engineSort numberWorld (compareValues (localeCompare numberWorld))
                                 (map (\<lambda>r. VNum (Finite r)) nums))),
                  [Distinct ''price''])
        \<and> mset (engineSort numberWorld (compareValues (localeCompare numberWorld))
                   (map (\<lambda>r. VNum (Finite r)) nums))
            = mset (map (\<lambda>r. VNum (Finite r)) nums)"
    using t4 by - (elim conjE, assumption)
  from e2 h6 have "filtersRoute numberWorld ''items'' optsP ''price''
          = Some (Json 200 (FiltersBody ''items'' ''price'' (length (map (\<lambda>r. VNum (Finite r)) nums))
                              (engineSort numberWorld (compareValues (localeCompare numberWorld))
                                 (map (\<lambda>r. VNum (Finite r)) nums))),
                  [Distinct ''price''])
        \<and> mset (engineSort numberWorld (compareValues (localeCompare numberWorld))
                   (map (\<lambda>r. VNum (Finite r)) nums))
            = mset (map (\<lambda>r. VNum (Finite r)) nums)"
    by (rule mp)
  then have e: "filtersRoute numberWorld ''items'' optsP ''price''
     = Some (Json 200 (FiltersBody ''items'' ''price'' 3
                         [VNum (Finite 1), VNum (Finite 2), VNum (Finite 3)]),
             [Distinct ''price''])"
    unfolding e1 srt by (simp add: nums_def)
  have h7: "\<forall>x\<in>set others. (\<forall>s. x \<noteq> VStr s) \<and> (\<forall>n. x \<noteq> VNum n)"
    by (simp add: others_def)
  have f0: "(\<forall>x\<in>set others. (\<forall>s. x \<noteq> VStr s) \<and> (\<forall>n. x \<noteq> VNum n))
        \<longrightarrow> engineSort flagWorld (compareValues (localeCompare flagWorld)) others = others"
    using t5 by - (elim conjE, assumption)
  from f0 h7 have f1: "engineSort flagWorld (compareValues (localeCompare flagWorld)) others = others"
    by (rule mp)
  have h8: "''done'' \<in> set (filterBy optsD) \<and> dbDistinct flagWorld [] ''done'' = Inr others"
    by (simp add: optsD_def flagWorld_def others_def)
  have f2: "''done'' \<in> set (filterBy optsD) \<and> dbDistinct flagWorld [] ''done'' = Inr others \<longrightarrow>
        filtersRoute flagWorld ''items'' optsD ''done''
          = Some (Json 200 (FiltersBody ''items'' ''done'' (length others)
                              (engineSort flagWorld (compareValues (localeCompare flagWorld)) others)),
                  [Distinct ''done''])
        \<and> mset (engineSort flagWorld (compareValues (localeCompare flagWorld)) others) = mset others"
    using t5 by - (elim conjE, assumption)
  from f2 h8 have "filtersRoute flagWorld ''items'' optsD ''done''
          = Some (Json 200 (FiltersBody ''items'' ''done'' (length others)
                              (engineSort flagWorld (compareValues (localeCompare flagWorld)) others)),
                  [Distinct ''done''])
        \<and> mset (engineSort flagWorld (compareValues (localeCompare flagWorld)) others) = mset others"
    by (rule mp)
  then have f: "filtersRoute flagWorld ''items'' optsD ''done''
     = Some (Json 200 (FiltersBody ''items'' ''done'' 3 [VBool True, VNull, VBool False]),
             [Distinct ''done''])"
    unfolding f1 by (simp add: others_def)
  show ?thesis
    using k1 a b c d e f unfolding opts_def optsP_def optsD_def
    by (intro conjI) assumption+
qed

end
